theory Spec2Isabelle
  imports Main
begin

section \<open>Values, errors and the host's objects\<close>

text \<open>
  The values the generator builds are JSON-like: objects are association lists in
  insertion order with one entry per key, as the host enumerates them (keys that look
  like array indices, which the host enumerates first, do not occur among the keys the
  claims below look at). Numbers are integers. \<open>JHost f s\<close> is the value the host's
  function \<open>f\<close> gives for the text \<open>s\<close> where the model does not compute it: \<open>Number\<close>
  of a text that is not a plain decimal integer (a fraction, an exponent, \<open>NaN\<close>), and
  \<open>toFixed\<close> of such a number.
\<close>

datatype json =
    JUndefined
  | JNull
  | JBool bool
  | JNum int
  | JHost string string
  | JStr string
  | JArr "json list"
  | JObj "(string \<times> json) list"

type_synonym obj = "(string \<times> json) list"

text \<open>
  Every \<open>throw\<close> of the source, and every exception the host raises in it, is an error
  value. \<open>UnknownModel field model\<close> and \<open>UnknownModelProperty field property model\<close>
  are the two errors of \<open>constructNameExpression\<close>, \<open>InvalidLocation field location\<close> the
  one of \<open>constructProperty\<close>, \<open>InvalidIn value\<close> the one of the keyword \<open>in\<close>.
  \<open>TypeError\<close>, \<open>SyntaxError\<close> and \<open>RangeError\<close> are the host's. \<open>Unmodelled\<close> marks
  an input on which the source reaches a member inherited from the host's
  \<open>Object.prototype\<close>: what happens there is outside this model.
\<close>

datatype error =
    UnknownModel "string option" string
  | UnknownModelProperty "string option" string string
  | InvalidLocation "string option" "string option"
  | InvalidIn json
  | TypeError string
  | SyntaxError string
  | RangeError
  | Unmodelled string

fun unmodelled :: "error \<Rightarrow> bool" where
  "unmodelled (Unmodelled s) = True"
| "unmodelled e = False"

type_synonym 'a result = "error + 'a"

definition bind :: "'a result \<Rightarrow> ('a \<Rightarrow> 'b result) \<Rightarrow> 'b result" where
  "bind r f = (case r of Inl e \<Rightarrow> Inl e | Inr v \<Rightarrow> f v)"

text \<open>Evaluating a list of computations in order; the first error is the one thrown.\<close>

fun sequence :: "'a result list \<Rightarrow> 'a list result" where
  "sequence [] = Inr []"
| "sequence (r # rs) =
     (case r of Inl e \<Rightarrow> Inl e
      | Inr v \<Rightarrow> (case sequence rs of Inl e \<Rightarrow> Inl e | Inr vs \<Rightarrow> Inr (v # vs)))"

text \<open>The names every plain object of the host inherits.\<close>

definition inheritedKeys :: "string list" where
  "inheritedKeys =
     [''constructor'', ''__proto__'', ''hasOwnProperty'', ''isPrototypeOf'',
      ''propertyIsEnumerable'', ''toLocaleString'', ''toString'', ''valueOf'',
      ''__defineGetter__'', ''__defineSetter__'', ''__lookupGetter__'',
      ''__lookupSetter__'']"

definition inherited :: "string \<Rightarrow> bool" where
  "inherited k = (k \<in> set inheritedKeys)"

text \<open>\<open>o[k]\<close> on an object: the own value, or \<open>undefined\<close>.\<close>

definition objGet :: "obj \<Rightarrow> string \<Rightarrow> json" where
  "objGet kvs k = (case map_of kvs k of Some v \<Rightarrow> v | None \<Rightarrow> JUndefined)"

text \<open>\<open>o[k] = v\<close>: an existing key keeps its place, a new key goes last.\<close>

fun objSet :: "string \<Rightarrow> 'a \<Rightarrow> (string \<times> 'a) list \<Rightarrow> (string \<times> 'a) list" where
  "objSet k v [] = [(k, v)]"
| "objSet k v ((k', v') # kvs) =
     (if k = k' then (k, v) # kvs else (k', v') # objSet k v kvs)"

text \<open>
  The host's truthiness. It is applied to \<open>options.format\<close> and \<open>options.items\<close> only,
  which are strings or \<open>undefined\<close>.
\<close>

fun truthy :: "json \<Rightarrow> bool" where
  "truthy JUndefined = False"
| "truthy JNull = False"
| "truthy (JBool b) = b"
| "truthy (JNum n) = (n \<noteq> 0)"
| "truthy (JHost f s) = True"
| "truthy (JStr s) = (s \<noteq> [])"
| "truthy (JArr xs) = True"
| "truthy (JObj kvs) = True"

section \<open>Strings\<close>

text \<open>
  A string is the list of its code units, each up to \<open>0xFF\<close>; texts with characters
  beyond that are outside the model.
\<close>

text \<open>\<open>s.split(c)\<close> for a separator of one character.\<close>

fun splitOn :: "char \<Rightarrow> string \<Rightarrow> string list" where
  "splitOn c [] = [[]]"
| "splitOn c (x # xs) =
     (if x = c then [] # splitOn c xs
      else (case splitOn c xs of [] \<Rightarrow> [[x]] | w # ws \<Rightarrow> (x # w) # ws))"

text \<open>
  White space, for \<open>trim\<close> and for \<open>\s\<close>: the white space and line terminator
  characters among the code units up to \<open>0xFF\<close>, the no-break space included.
\<close>

definition isSpace :: "char \<Rightarrow> bool" where
  "isSpace c =
     (c \<in> set [CHR '' '', CHR 0x09, CHR 0x0A, CHR 0x0B, CHR 0x0C, CHR 0x0D, CHR 0xA0])"

definition trim :: "string \<Rightarrow> string" where
  "trim s = rev (dropWhile isSpace (rev (dropWhile isSpace s)))"

text \<open>\<open>toLowerCase\<close>, on the letters among the code units up to \<open>0xFF\<close>.\<close>

definition upperLetters :: string where
  "upperLetters =
     ''ABCDEFGHIJKLMNOPQRSTUVWXYZ'' @
     [CHR 0xC0, CHR 0xC1, CHR 0xC2, CHR 0xC3, CHR 0xC4, CHR 0xC5, CHR 0xC6, CHR 0xC7,
      CHR 0xC8, CHR 0xC9, CHR 0xCA, CHR 0xCB, CHR 0xCC, CHR 0xCD, CHR 0xCE, CHR 0xCF,
      CHR 0xD0, CHR 0xD1, CHR 0xD2, CHR 0xD3, CHR 0xD4, CHR 0xD5, CHR 0xD6,
      CHR 0xD8, CHR 0xD9, CHR 0xDA, CHR 0xDB, CHR 0xDC, CHR 0xDD, CHR 0xDE]"

definition lowerLetters :: string where
  "lowerLetters =
     ''abcdefghijklmnopqrstuvwxyz'' @
     [CHR 0xE0, CHR 0xE1, CHR 0xE2, CHR 0xE3, CHR 0xE4, CHR 0xE5, CHR 0xE6, CHR 0xE7,
      CHR 0xE8, CHR 0xE9, CHR 0xEA, CHR 0xEB, CHR 0xEC, CHR 0xED, CHR 0xEE, CHR 0xEF,
      CHR 0xF0, CHR 0xF1, CHR 0xF2, CHR 0xF3, CHR 0xF4, CHR 0xF5, CHR 0xF6,
      CHR 0xF8, CHR 0xF9, CHR 0xFA, CHR 0xFB, CHR 0xFC, CHR 0xFD, CHR 0xFE]"

definition lowerChar :: "char \<Rightarrow> char" where
  "lowerChar c = (case map_of (zip upperLetters lowerLetters) c of None \<Rightarrow> c | Some l \<Rightarrow> l)"

definition toLowerCase :: "string \<Rightarrow> string" where
  "toLowerCase s = map lowerChar s"

text \<open>Decimal notation of a natural number, for the index keys of a spread string.\<close>

fun showNat :: "nat \<Rightarrow> string" where
  "showNat n =
     (if n < 10 then [''0123456789'' ! n]
      else showNat (n div 10) @ [''0123456789'' ! (n mod 10)])"

declare showNat.simps [simp del]

text \<open>
  \<open>{...v}\<close>: the own enumerable properties of \<open>v\<close>. A string spreads into its
  characters keyed by index, an array into its elements keyed by index.
\<close>

definition indexed :: "json list \<Rightarrow> obj" where
  "indexed xs = zip (map showNat [0..<length xs]) xs"

fun spread :: "json \<Rightarrow> obj" where
  "spread (JObj kvs) = kvs"
| "spread (JStr s) = indexed (map (\<lambda>c. JStr [c]) s)"
| "spread (JArr xs) = indexed xs"
| "spread v = []"

section \<open>The type expression compiler\<close>

text \<open>
  A type node as the external parser delivers it. \<open>OtherType kind\<close> stands for every
  node kind the dispatch table \<open>typeConstructors\<close> has no entry for
  (\<open>UndefinedLiteral\<close>, \<open>RecordType\<close>, ...); \<open>NullLiteral\<close> is one of those, kept apart
  because \<open>constructUnionType\<close> looks for it.
\<close>

datatype tnode =
    NameExpression string
  | StringLiteralType string
  | NullLiteral
  | AllLiteral
  | OptionalType tnode
  | TypeApplication tnode "tnode list"
  | UnionType "tnode list"
  | OtherType string

text \<open>
  The context of a compilation: the schema registry \<open>components.schemas\<close>, which maps a
  model name to the \<open>properties\<close> object of its schema (\<open>None\<close> when the schema has
  none, as for a model without attributes), the host's verdict on the source texts that
  \<open>isRegExp\<close> has it compile and run, and the host's \<open>JSON.parse\<close> (\<open>None\<close> when it
  throws).
\<close>

record env =
  schemas :: "(string \<times> obj option) list"
  hostIsRegExp :: "json \<Rightarrow> bool"
  jsonParse :: "string \<Rightarrow> json option"

definition simpleNameExpressions :: "string list" where
  "simpleNameExpressions = [''string'', ''number'', ''integer'', ''boolean'']"

definition constructAllLiteral :: json where
  "constructAllLiteral =
     JObj [(''nullable'', JBool True),
           (''anyOf'',
            JArr [JObj [(''type'', JStr ''string'')],
                  JObj [(''type'', JStr ''number'')],
                  JObj [(''type'', JStr ''integer'')],
                  JObj [(''type'', JStr ''boolean'')],
                  JObj [(''type'', JStr ''array''), (''items'', JObj [])],
                  JObj [(''type'', JStr ''object'')]])]"

text \<open>The last element of a \<open>reduce\<close> that overwrites its accumulator, \<open>{}\<close> for none.\<close>

definition lastOr :: "json list \<Rightarrow> json" where
  "lastOr vs = (if vs = [] then JObj [] else last vs)"

text \<open>\<open>{type: 'string', format: v}\<close>\<close>

definition stringFormat :: "json \<Rightarrow> json" where
  "stringFormat v = JObj [(''type'', JStr ''string''), (''format'', v)]"

text \<open>
  \<open>isRegExp\<close> pastes its argument, as text, into the source \<open>new RegExp(text)\<close> of a
  function body in strict mode, has the host compile the function and run it, and
  answers \<open>false\<close> when either throws. The grammar of the host's language fixes the
  answer for these arguments: the empty text (\<open>new RegExp()\<close>) and a decimal integer
  literal are accepted; a text whose first character no expression can start with is
  a syntax error, and so is \<open>[object Object]\<close>, the text of every object: they are
  rejected. For every other argument the answer is the host's.
\<close>

definition decimalLiteral :: "string \<Rightarrow> bool" where
  "decimalLiteral s =
     (s \<noteq> [] \<and> list_all (\<lambda>c. c \<in> set ''0123456789'') s
      \<and> (if hd s = CHR ''0'' then s = ''0'' else True))"

definition cannotStartExpression :: "char \<Rightarrow> bool" where
  "cannotStartExpression c = (c \<in> set ''^*?|&%=>,:;]}'')"

definition isRegExp :: "env \<Rightarrow> json \<Rightarrow> bool" where
  "isRegExp ctx v =
     (case v of
        JStr s \<Rightarrow>
          if s = [] \<or> decimalLiteral s then True
          else if cannotStartExpression (hd s) then False
          else hostIsRegExp ctx v
      | JObj kvs \<Rightarrow> False
      | _ \<Rightarrow> hostIsRegExp ctx v)"

text \<open>The object \<open>{type: name, [pattern or format]: v}\<close> of \<open>constructNameExpression\<close>.\<close>

definition formatOrPattern :: "env \<Rightarrow> string \<Rightarrow> json \<Rightarrow> json" where
  "formatOrPattern ctx name v =
     JObj [(''type'', JStr name), (if isRegExp ctx v then ''pattern'' else ''format'', v)]"

text \<open>The tail of \<open>constructDate\<close> and \<open>constructFile\<close> without type arguments.\<close>

definition stringWithFormat :: "obj \<Rightarrow> json" where
  "stringWithFormat options =
     JObj ((''type'', JStr ''string'') #
           (if truthy (objGet options ''format'')
            then [(''format'', objGet options ''format'')] else []))"

text \<open>\<open>xs[i]\<close>, which is \<open>undefined\<close> out of range.\<close>

definition nth_opt :: "'a list \<Rightarrow> nat \<Rightarrow> 'a option" where
  "nth_opt xs i = (if i < length xs then Some (xs ! i) else None)"

text \<open>The truthiness of a string that may be \<open>undefined\<close>.\<close>

definition nonEmpty :: "string option \<Rightarrow> bool" where
  "nonEmpty s = (case s of None \<Rightarrow> False | Some t \<Rightarrow> t \<noteq> [])"

text \<open>\<open>typeof properties[k] !== 'undefined'\<close>\<close>

definition hasMember :: "obj \<Rightarrow> string \<Rightarrow> bool" where
  "hasMember ps k = (inherited k \<or> (case map_of ps k of None \<Rightarrow> False | Some v \<Rightarrow> v \<noteq> JUndefined))"

text \<open>
  The reference part of \<open>constructNameExpression\<close>, after the dispatch: the name is
  split at the dots, the model is looked up in the registry and the property in the
  model's \<open>properties\<close>.
\<close>

definition reference :: "env \<Rightarrow> string option \<Rightarrow> string \<Rightarrow> json result" where
  "reference ctx field name =
     (let model = hd (splitOn CHR ''.'' name);
          modelProperty = nth_opt (splitOn CHR ''.'' name) 1
      in if inherited model then Inl (Unmodelled model)
         else if model \<noteq> [] \<and> map_of (schemas ctx) model = None
         then Inl (UnknownModel field model)
         else if nonEmpty modelProperty then
           (case map_of (schemas ctx) model of
              None \<Rightarrow> Inl (TypeError ''components.schemas[model] is undefined'')
            | Some None \<Rightarrow> Inl (TypeError ''components.schemas[model].properties is undefined'')
            | Some (Some ps) \<Rightarrow>
                if hasMember ps (the modelProperty)
                then Inr (JObj [(''$ref'', JStr (''#/components/schemas/'' @ model @
                                   ''/properties/'' @ the modelProperty))])
                else Inl (UnknownModelProperty field (the modelProperty) model))
         else Inr (JObj [(''$ref'', JStr (''#/components/schemas/'' @ model))]))"

text \<open>
  \<open>constructPropertyType\<close> with the constructors it dispatches to: one clause per entry
  of \<open>typeConstructors\<close>. A \<open>NameExpression\<close> is resolved by its name: a simple name,
  then a name that is a key of \<open>typeConstructors\<close> (\<open>Array\<close>, \<open>Object\<close>, \<open>Enum\<close>,
  \<open>Date\<close>, \<open>File\<close>, and the node kinds themselves), then a reference into the registry.
\<close>

function constructPropertyType ::
  "env \<Rightarrow> tnode \<Rightarrow> string option \<Rightarrow> obj \<Rightarrow> tnode list option \<Rightarrow> json result"
where
  "constructPropertyType ctx (StringLiteralType v) field options applications = Inr (JStr v)"
| "constructPropertyType ctx NullLiteral field options applications =
     Inl (TypeError ''typeConstructors[type.type] is not a function'')"
| "constructPropertyType ctx (OtherType k) field options applications =
     Inl (TypeError ''typeConstructors[type.type] is not a function'')"
| "constructPropertyType ctx AllLiteral field options applications = Inr constructAllLiteral"
| "constructPropertyType ctx (OptionalType e) field options applications =
     bind (constructPropertyType ctx e field options None) (\<lambda>v. Inr (JObj (spread v)))"
| "constructPropertyType ctx (TypeApplication e as) field options applications =
     bind (constructPropertyType ctx e field options (Some as)) (\<lambda>v. Inr (JObj (spread v)))"
| "constructPropertyType ctx (UnionType elements) field options applications =
     (let es = filter (\<lambda>e. e \<noteq> NullLiteral) elements;
          nullable = (NullLiteral \<in> set elements)
      in bind
           (if length es > 1
            then bind (sequence (map (\<lambda>e. constructPropertyType ctx e field options None) es))
                   (\<lambda>vs. Inr [(''anyOf'', JArr vs)])
            else (case es of
                    [] \<Rightarrow> Inl (TypeError ''type is undefined'')
                  | e # _ \<Rightarrow> bind (constructPropertyType ctx e field options None)
                               (\<lambda>v. Inr (spread v))))
           (\<lambda>prop. Inr (JObj (objSet ''nullable'' (JBool nullable) prop))))"
| "constructPropertyType ctx (NameExpression name) field options applications =
     (let apps = (case applications of None \<Rightarrow> [] | Some as \<Rightarrow> as);
          compiled = sequence (map (\<lambda>a. constructPropertyType ctx a field options None) apps)
      in
      if name \<in> set simpleNameExpressions then
        (if apps \<noteq> [] \<and> name = ''string'' then
           bind compiled (\<lambda>vs.
             let props = map (formatOrPattern ctx name) vs
             in if length apps = 1 then Inr (hd props)
                else Inr (JObj [(''oneOf'', JArr props)]))
         else Inr (JObj [(''type'', JStr name)]))
      else if inherited name then Inl (Unmodelled name)
      else if name = ''StringLiteralType'' then Inr JUndefined
      else if name = ''NameExpression'' then Inl RangeError
      else if name = ''Array'' then
        (case applications of
           None \<Rightarrow> Inl (TypeError ''applications is undefined'')
         | Some _ \<Rightarrow> bind compiled (\<lambda>vs.
             Inr (JObj [(''type'', JStr ''array''), (''items'', lastOr vs)])))
      else if name = ''Object'' then
        (case applications of
           None \<Rightarrow> Inl (TypeError ''applications is undefined'')
         | Some _ \<Rightarrow>
             bind (sequence (map (\<lambda>a.
                      case a of
                        TypeApplication ex aas \<Rightarrow>
                          bind (sequence (map (\<lambda>b. constructPropertyType ctx b field options None) aas))
                            (\<lambda>vs. let propertyName =
                                         (case ex of NameExpression n \<Rightarrow> n | _ \<Rightarrow> ''undefined'')
                                  in if propertyName = ''__proto__''
                                     then Inl (Unmodelled propertyName)
                                     else Inr (propertyName, lastOr vs))
                      | _ \<Rightarrow> Inl (TypeError ''application.expression is undefined'')) apps))
               (\<lambda>kvs. Inr (JObj [(''type'', JStr ''object''),
                                 (''properties'', JObj (foldl (\<lambda>acc (k, v). objSet k v acc) [] kvs))])))
      else if name = ''Enum'' then
        (if apps \<noteq> [] then
           bind compiled (\<lambda>vs. Inr (JObj [(''type'', JStr ''string''), (''enum'', JArr vs)]))
         else Inr (JObj [(''type'', JStr ''string''),
                         (''enum'', if truthy (objGet options ''items'')
                                    then objGet options ''items'' else JArr [])]))
      else if name = ''Date'' then
        (if apps \<noteq> [] then
           bind compiled (\<lambda>vs. Inr (JObj [(''anyOf'', JArr (map stringFormat vs))]))
         else Inr (stringWithFormat options))
      else if name = ''File'' then
        (if apps \<noteq> [] then
           bind compiled (\<lambda>vs.
             let props = map stringFormat vs
             in if length apps = 1 then Inr (hd props)
                else Inr (JObj [(''oneOf'', JArr props)]))
         else Inr (stringWithFormat options))
      else if name = ''OptionalType'' \<or> name = ''TypeApplication'' then
        Inl (TypeError ''type is undefined'')
      else if name = ''UnionType'' then
        Inl (TypeError ''type.elements is undefined'')
      else if name = ''AllLiteral'' then Inr constructAllLiteral
      else reference ctx field name)"
  by pat_completeness auto

lemma size_elem_lt: "a \<in> set as \<Longrightarrow> size a < size_list size as"
  by (induction as) auto

lemma size_filter_head:
  "e # es = filter P elements \<Longrightarrow> size (e::tnode) < size_list size elements"
proof -
  assume h: "e # es = filter P elements"
  have "e \<in> set (filter P elements)" using h [symmetric] by simp
  then have "e \<in> set elements" by simp
  then show ?thesis by (rule size_elem_lt)
qed

lemma size_nested_lt:
  "TypeApplication ex aas \<in> set as \<Longrightarrow> b \<in> set aas \<Longrightarrow> size b < size_list size as"
  using size_elem_lt [of "TypeApplication ex aas" as] size_elem_lt [of b aas] by simp

termination constructPropertyType
  apply (relation "measure (\<lambda>(ctx, t, field, options, applications).
            size t + (case applications of None \<Rightarrow> 0 | Some as \<Rightarrow> size_list size as))")
  apply (auto split: option.splits dest: size_elem_lt size_filter_head size_nested_lt)
  done

text \<open>The own keys of the dispatch table \<open>typeConstructors\<close>.\<close>

definition typeConstructorKeys :: "string list" where
  "typeConstructorKeys =
     [''StringLiteralType'', ''NameExpression'', ''Array'', ''Object'', ''Enum'', ''Date'',
      ''File'', ''OptionalType'', ''TypeApplication'', ''UnionType'', ''AllLiteral'']"

text \<open>An environment for the examples: an empty registry, or one model \<open>User\<close>.\<close>

definition neverRegExp :: "json \<Rightarrow> bool" where
  "neverRegExp v = False"

definition neverParses :: "string \<Rightarrow> json option" where
  "neverParses s = None"

definition emptyEnv :: env where
  "emptyEnv = \<lparr>schemas = [], hostIsRegExp = neverRegExp, jsonParse = neverParses\<rparr>"

definition userEnv :: env where
  "userEnv =
     \<lparr>schemas = [(''User'', Some [(''firstName'', JObj [(''type'', JStr ''string'')]),
                                   (''lastName'', JObj [(''type'', JStr ''string'')])])],
      hostIsRegExp = neverRegExp, jsonParse = neverParses\<rparr>"

declare constructPropertyType.simps(8) [simp del]

lemmas constructNameExpression = constructPropertyType.simps(8)

text \<open>The \<open>i\<close>-th segment of a dotted name, empty when there is none.\<close>

definition segment :: "string \<Rightarrow> nat \<Rightarrow> string" where
  "segment name i = (case nth_opt (splitOn CHR ''.'' name) i of None \<Rightarrow> [] | Some s \<Rightarrow> s)"

section \<open>The option grammar\<close>

subsection \<open>The regular expressions of \<open>optionsReducer\<close>\<close>

text \<open>\<open>s.replace(pat, rep)\<close> for a pattern that is a string: the first occurrence.\<close>

fun replaceFirst :: "string \<Rightarrow> string \<Rightarrow> string \<Rightarrow> string" where
  "replaceFirst pat rep [] = (if pat = [] then rep else [])"
| "replaceFirst pat rep (x # xs) =
     (if take (length pat) (x # xs) = pat then rep @ drop (length pat) (x # xs)
      else x # replaceFirst pat rep xs)"

text \<open>
  \<open>description.replace(optionsRegExp, '~~~')\<close>: every new line that is followed, after
  optional white space, by a dash is replaced, together with that white space, the
  dash and the white space after it.
\<close>

function replaceOptions :: "string \<Rightarrow> string" where
  "replaceOptions [] = []"
| "replaceOptions (c # cs) =
     (if c = CHR 0x0A then
        (case dropWhile isSpace cs of
           [] \<Rightarrow> c # replaceOptions cs
         | d # rest \<Rightarrow>
             if d = CHR ''-'' then ''~~~'' @ replaceOptions (dropWhile isSpace rest)
             else c # replaceOptions cs)
      else c # replaceOptions cs)"
  by pat_completeness auto

lemma length_dropWhile_tail:
  "dropWhile P cs = d # rest \<Longrightarrow> length (dropWhile Q rest) < Suc (length cs)"
proof -
  assume h: "dropWhile P cs = d # rest"
  have "length (dropWhile Q rest) \<le> length rest" by (rule length_dropWhile_le)
  moreover have "length (d # rest) \<le> length cs" using h [symmetric] by (simp add: length_dropWhile_le)
  ultimately show ?thesis by simp
qed

termination replaceOptions
  by (relation "measure length") (auto dest: length_dropWhile_tail)

text \<open>Putting a character in front of the first piece of a split.\<close>

fun consHead :: "char \<Rightarrow> string list \<Rightarrow> string list" where
  "consHead x [] = [[x]]"
| "consHead x (w # ws) = (x # w) # ws"

text \<open>\<open>rawOptions.split('~~~')\<close>\<close>

function splitSeparator :: "string \<Rightarrow> string list" where
  "splitSeparator [] = [[]]"
| "splitSeparator (x # xs) =
     (if take 3 (x # xs) = ''~~~'' then [] # splitSeparator (drop 2 xs)
      else consHead x (splitSeparator xs))"
  by pat_completeness auto

termination splitSeparator
  by (relation "measure length") auto

text \<open>
  \<open>optionKeyRegExp\<close> is \<open>^[a-zA-Z0-9]*:\<close> with the flag \<open>m\<close>. \<open>matchKey s\<close> is the
  length of its match at the start of \<open>s\<close>, when that position is the start of a line.
\<close>

definition isAlnum :: "char \<Rightarrow> bool" where
  "isAlnum c =
     (let n = (of_char c :: nat)
      in (48 \<le> n \<and> n \<le> 57) \<or> (65 \<le> n \<and> n \<le> 90) \<or> (97 \<le> n \<and> n \<le> 122))"

definition matchKey :: "string \<Rightarrow> nat option" where
  "matchKey s =
     (case dropWhile isAlnum s of
        [] \<Rightarrow> None
      | c # rest \<Rightarrow> if c = CHR '':'' then Some (Suc (length (takeWhile isAlnum s))) else None)"

definition isLineTerminator :: "char \<Rightarrow> bool" where
  "isLineTerminator c = (c = CHR 0x0A \<or> c = CHR 0x0D)"

text \<open>
  \<open>option.split(optionKeyRegExp)\<close>: the pieces between the matches, with each match
  (the capture group) between them. The flag says whether the position is the start
  of a line.
\<close>

function splitKey :: "bool \<Rightarrow> string \<Rightarrow> string list" where
  "splitKey lineStart [] = [[]]"
| "splitKey lineStart (x # xs) =
     (case (if lineStart then matchKey (x # xs) else None) of
        Some n \<Rightarrow> [] # take n (x # xs) # splitKey False (drop (n - 1) xs)
      | None \<Rightarrow> consHead x (splitKey (isLineTerminator x) xs))"
  by pat_completeness auto

termination splitKey
  by (relation "measure (\<lambda>(b, s). length s)") auto

text \<open>\<open>optionKeyRegExp.test(key)\<close>: a match at the start of some line.\<close>

fun testKey :: "bool \<Rightarrow> string \<Rightarrow> bool" where
  "testKey lineStart [] = False"
| "testKey lineStart (x # xs) =
     ((lineStart \<and> matchKey (x # xs) \<noteq> None) \<or> testKey (isLineTerminator x) xs)"

text \<open>\<open>key.replace(/[:]$/, '')\<close>\<close>

definition stripColon :: "string \<Rightarrow> string" where
  "stripColon s = (if s \<noteq> [] \<and> last s = CHR '':'' then butlast s else s)"

subsection \<open>Coercions\<close>

definition isDigit :: "char \<Rightarrow> bool" where
  "isDigit c = (48 \<le> (of_char c :: nat) \<and> (of_char c :: nat) \<le> 57)"

definition digitsValue :: "string \<Rightarrow> int" where
  "digitsValue s = foldl (\<lambda>n c. 10 * n + (of_char c - 48)) 0 s"

text \<open>
  \<open>new Number(value).valueOf()\<close>. A plain decimal integer that a double holds exactly
  (at most \<open>2 ^ 53\<close>) is that integer; the empty text is 0; every other text is left to
  the host.
\<close>

definition isInteger :: "string \<Rightarrow> bool" where
  "isInteger s = (s \<noteq> [] \<and> list_all isDigit s \<and> digitsValue s \<le> 9007199254740992)"

definition numberOf :: "string option \<Rightarrow> json" where
  "numberOf value =
     (case value of
        None \<Rightarrow> JHost ''Number'' ''undefined''
      | Some s \<Rightarrow>
          let t = trim s
          in if t = [] then JNum 0
             else if isInteger t then JNum (digitsValue t)
             else if hd t = CHR ''-'' \<and> isInteger (tl t) \<and> digitsValue (tl t) \<noteq> 0
             then JNum (- digitsValue (tl t))
             else if hd t = CHR ''+'' \<and> isInteger (tl t) then JNum (digitsValue (tl t))
             else JHost ''Number'' t)"

definition showInt :: "int \<Rightarrow> string" where
  "showInt n = (if n < 0 then CHR ''-'' # showNat (nat (- n)) else showNat (nat n))"

text \<open>\<open>n.toFixed()\<close>\<close>

fun toFixed :: "json \<Rightarrow> json" where
  "toFixed (JNum n) = JStr (showInt n)"
| "toFixed (JHost f s) = JHost ''toFixed'' s"
| "toFixed v = v"

text \<open>\<open>typeof value === 'undefined' ? true : value === 'true'\<close>\<close>

definition booleanOf :: "json \<Rightarrow> json" where
  "booleanOf value = JBool (value = JUndefined \<or> value = JStr ''true'')"

definition optionalString :: "string option \<Rightarrow> json" where
  "optionalString value = (case value of None \<Rightarrow> JUndefined | Some s \<Rightarrow> JStr s)"

definition parseJson :: "env \<Rightarrow> string \<Rightarrow> json result" where
  "parseJson env s = (case jsonParse env s of None \<Rightarrow> Inl (SyntaxError s) | Some v \<Rightarrow> Inr v)"

subsection \<open>The two keyword tables\<close>

definition keywordsObjectKeys :: "string list" where
  "keywordsObjectKeys =
     [''in'', ''description'', ''not'', ''deprecated'', ''discriminator'', ''example'',
      ''externalDocs'', ''nullable'', ''readOnly'', ''writeOnly'', ''xml'', ''required'',
      ''oneOf'', ''allOf'', ''anyOf'']"

definition keywordsParameterKeys :: "string list" where
  "keywordsParameterKeys =
     [''title'', ''format'', ''pattern'', ''enum'', ''minimum'', ''maximum'',
      ''exclusiveMinimum'', ''exclusiveMaximum'', ''multipleOf'', ''minLength'', ''maxLength'',
      ''minItems'', ''maxItems'', ''uniqueItems'', ''minProperties'', ''maxProperties'']"

definition locations :: "string list" where
  "locations = [''query'', ''path'', ''body'', ''headers'']"

definition compositions :: "string list" where
  "compositions = [''not'', ''allOf'', ''anyOf'', ''oneOf'']"

text \<open>\<open>[...value]\<close>\<close>

fun arraySpread :: "json \<Rightarrow> json list result" where
  "arraySpread (JArr xs) = Inr xs"
| "arraySpread (JStr s) = Inr (map (\<lambda>c. JStr [c]) s)"
| "arraySpread v = Inl (TypeError ''value is not iterable'')"

text \<open>\<open>keywordsObject[key](value)\<close>\<close>

definition keywordsObject :: "env \<Rightarrow> string \<Rightarrow> json \<Rightarrow> json result" where
  "keywordsObject env key value =
     (if key = ''in'' then
        (if value \<in> set (map JStr locations) then Inr value else Inl (InvalidIn value))
      else if key \<in> set [''description'', ''discriminator'', ''example'', ''externalDocs'', ''xml'']
      then Inr value
      else if key = ''not'' then Inr (JObj (spread value))
      else if key = ''deprecated'' then Inr (JBool True)
      else if key \<in> set [''nullable'', ''readOnly'', ''writeOnly''] then Inr (booleanOf value)
      else if key = ''required'' then
        (case value of
           JStr s \<Rightarrow> parseJson env (replaceFirst [CHR 0x27] [CHR 0x22] s)
         | _ \<Rightarrow> Inl (TypeError ''value.replace is not a function''))
      else if key \<in> set [''oneOf'', ''allOf'', ''anyOf''] then
        bind (arraySpread value) (\<lambda>xs. Inr (JArr xs))
      else if inherited key then Inl (Unmodelled key)
      else Inl (TypeError ''keywordsObject[key] is not a function''))"

text \<open>\<open>keywordsParameter[key](value)\<close>\<close>

definition keywordsParameter :: "env \<Rightarrow> string \<Rightarrow> string option \<Rightarrow> json result" where
  "keywordsParameter env key value =
     (if key \<in> set [''title'', ''format'', ''pattern''] then Inr (optionalString value)
      else if key = ''enum'' then
        (case value of
           None \<Rightarrow> Inl (TypeError ''value is undefined'')
         | Some s \<Rightarrow> parseJson env (map (\<lambda>c. if c = CHR 0x27 then CHR 0x22 else c) s))
      else if key \<in> set [''minimum'', ''maximum'', ''multipleOf''] then Inr (numberOf value)
      else if key \<in> set [''exclusiveMinimum'', ''exclusiveMaximum'', ''uniqueItems'']
      then Inr (booleanOf (optionalString value))
      else if key \<in> set [''minLength'', ''maxLength'', ''minItems'', ''maxItems'',
                          ''minProperties'', ''maxProperties'']
      then Inr (toFixed (numberOf value))
      else if inherited key then Inl (Unmodelled key)
      else Inl (TypeError ''keywordsParameter[key] is not a function''))"

subsection \<open>\<open>optionsReducer\<close>\<close>

text \<open>
  The values accumulated so far under a key: \<open>[v]\<close> when there are none, else
  \<open>[v, ...old]\<close>, the new value in front.
\<close>

definition prepend :: "json \<Rightarrow> json \<Rightarrow> json result" where
  "prepend v old =
     (if old = JUndefined then Inr (JArr [v])
      else bind (arraySpread old) (\<lambda>xs. Inr (JArr (v # xs))))"

text \<open>
  The head of the reducer's body: the option is split at the key, and the key and the
  value are cleaned when the key has the form \<open>key:\<close>. Both may be \<open>undefined\<close>.
\<close>

definition parseOption :: "string \<Rightarrow> string option \<times> string option" where
  "parseOption option =
     (let parts = filter (\<lambda>v. v \<noteq> []) (splitKey True option);
          key0 = nth_opt parts 0;
          value0 = nth_opt parts 1;
          matched = (case key0 of None \<Rightarrow> False | Some k \<Rightarrow> testKey True k)
      in (if matched then map_option stripColon key0 else key0,
          if matched then map_option trim value0 else value0))"

text \<open>The key as a property name.\<close>

definition keyOf :: "string \<Rightarrow> string" where
  "keyOf option = (case fst (parseOption option) of None \<Rightarrow> ''undefined'' | Some k \<Rightarrow> k)"

text \<open>
  One step of the reduction: the accumulator is updated for the key and the value of
  the option. The accumulator is the object that starts as \<open>{level: undefined}\<close>.
\<close>

definition optionsStep :: "env \<Rightarrow> obj \<Rightarrow> string \<Rightarrow> obj result" where
  "optionsStep env accumulator option =
     (let keyOpt = fst (parseOption option);
          value = snd (parseOption option);
          key = keyOf option
      in
      if inherited key then Inl (Unmodelled key)
      else if key \<in> set keywordsObjectKeys then
        (if key \<in> set compositions
         then Inr (objSet ''level'' (JStr key) (objSet key (JObj []) accumulator))
         else Inr (objSet key (optionalString value) accumulator))
      else if key \<in> set keywordsParameterKeys then
        (case objGet accumulator ''level'' of
           JUndefined \<Rightarrow>
             bind (keywordsParameter env key value) (\<lambda>v.
             bind (prepend v (objGet accumulator key)) (\<lambda>vs.
             Inr (objSet key vs accumulator)))
         | JStr level \<Rightarrow>
             if level \<in> set compositions then
               (case objGet accumulator level of
                  JObj nested \<Rightarrow>
                    bind (keywordsParameter env key value) (\<lambda>v.
                    bind (prepend v (objGet nested key)) (\<lambda>vs.
                    Inr (objSet level (JObj (objSet key vs nested)) accumulator)))
                | _ \<Rightarrow> Inl (Unmodelled level))
             else Inr accumulator
         | _ \<Rightarrow> Inr accumulator)
      else Inr (objSet ''description'' (optionalString keyOpt) accumulator))"

fun optionsLoop :: "env \<Rightarrow> obj \<Rightarrow> string list \<Rightarrow> obj result" where
  "optionsLoop env accumulator [] = Inr accumulator"
| "optionsLoop env accumulator (option # rest) =
     bind (optionsStep env accumulator option) (\<lambda>acc. optionsLoop env acc rest)"

definition optionsReducer :: "env \<Rightarrow> string option \<Rightarrow> obj result" where
  "optionsReducer env description =
     (case description of
        None \<Rightarrow> Inl (TypeError ''description is null'')
      | Some d \<Rightarrow>
          optionsLoop env [(''level'', JUndefined)] (splitSeparator (replaceOptions d)))"

subsection \<open>\<open>constructOptions\<close>\<close>

text \<open>
  The loop over the keys of the store, with the \<open>levelStore\<close> built so far. A list of
  several values, or any list under an open composition, becomes single-key objects
  appended to \<open>levelStore[levelKey]\<close>, in the order of the list.
\<close>

definition levelKey :: "string option \<Rightarrow> string" where
  "levelKey level = (if nonEmpty level then the level else ''anyOf'')"

definition pushVariants :: "string \<Rightarrow> string \<Rightarrow> json list \<Rightarrow> obj \<Rightarrow> obj result" where
  "pushVariants lk key variants levelStore =
     bind (if objGet levelStore lk = JUndefined then Inr []
           else arraySpread (objGet levelStore lk))
       (\<lambda>old. Inr (objSet lk (JArr (old @ map (\<lambda>variant. JObj [(key, variant)]) variants))
                      levelStore))"

function constructOptionsLoop :: "env \<Rightarrow> string option \<Rightarrow> obj \<Rightarrow> obj \<Rightarrow> obj result" where
  "constructOptionsLoop env level [] levelStore = Inr levelStore"
| "constructOptionsLoop env level ((key, option) # rest) levelStore =
     (if key = ''level'' then constructOptionsLoop env level rest levelStore
      else if key \<in> set keywordsParameterKeys then
        (case option of
           JArr variants \<Rightarrow>
             if nonEmpty level \<or> length variants \<noteq> 1
             then bind (pushVariants (levelKey level) key variants levelStore)
                    (constructOptionsLoop env level rest)
             else constructOptionsLoop env level rest (objSet key (hd variants) levelStore)
         | _ \<Rightarrow> Inl (TypeError ''option.map is not a function''))
      else if key \<in> set [''allOf'', ''anyOf'', ''oneOf''] then
        (case option of
           JObj nested \<Rightarrow>
             bind (constructOptionsLoop env (Some key) nested [])
               (\<lambda>r. constructOptionsLoop env level rest (objSet key (objGet r key) levelStore))
         | _ \<Rightarrow> Inl (Unmodelled key))
      else if key = ''not'' then
        (case option of
           JObj nested \<Rightarrow>
             bind (constructOptionsLoop env None nested [])
               (\<lambda>r. constructOptionsLoop env level rest (objSet key (JObj r) levelStore))
         | _ \<Rightarrow> Inl (Unmodelled key))
      else bind (keywordsObject env key option)
             (\<lambda>v. constructOptionsLoop env level rest (objSet key v levelStore)))"
  by pat_completeness auto

termination constructOptionsLoop
  by (relation "measure (\<lambda>(env, level, store, levelStore). size_list (size_prod (\<lambda>k. 0) size) store)")
     auto

definition constructOptions :: "env \<Rightarrow> obj \<Rightarrow> string option \<Rightarrow> obj result" where
  "constructOptions env store level = constructOptionsLoop env level store []"

subsection \<open>The declarations of a keyword in a description\<close>

text \<open>The options of a description, in the order of its lines.\<close>

definition optionsOf :: "string \<Rightarrow> string list" where
  "optionsOf d = splitSeparator (replaceOptions d)"

text \<open>
  The options that declare the keyword \<open>key\<close>, in the order of declaration, and the
  coerced value of such an option.
\<close>

definition declarations :: "string \<Rightarrow> string list \<Rightarrow> string list" where
  "declarations key options = filter (\<lambda>option. keyOf option = key) options"

definition coerced :: "env \<Rightarrow> string \<Rightarrow> string \<Rightarrow> json result" where
  "coerced env key option = keywordsParameter env key (snd (parseOption option))"

text \<open>
  The single-key objects \<open>{key: value}\<close> among the elements of \<open>options.anyOf\<close>, in
  their order there.
\<close>

fun hasKey :: "string \<Rightarrow> json \<Rightarrow> bool" where
  "hasKey key (JObj [(k, v)]) = (k = key)"
| "hasKey key v = False"

definition arrayElements :: "json \<Rightarrow> json list" where
  "arrayElements v = (case v of JArr xs \<Rightarrow> xs | _ \<Rightarrow> [])"

definition variantsOf :: "string \<Rightarrow> obj \<Rightarrow> json list" where
  "variantsOf key options = filter (hasKey key) (arrayElements (objGet options ''anyOf''))"

text \<open>
  The coerced values of the declarations of \<open>key\<close>, in the order of declaration
  (\<open>undefined\<close> in the place of a value whose coercion throws).
\<close>

definition declaredValues :: "env \<Rightarrow> string \<Rightarrow> string list \<Rightarrow> json list" where
  "declaredValues env key options =
     map (\<lambda>option. case coerced env key option of Inl e \<Rightarrow> JUndefined | Inr v \<Rightarrow> v)
       (declarations key options)"

subsection \<open>What the reducer keeps true of its accumulator\<close>

text \<open>
  As long as no composition keyword is met: \<open>level\<close> is \<open>undefined\<close>, no key is a
  composition keyword, the keys are distinct, and what is stored under a scalar keyword
  is an array.
\<close>

fun arrayOrUndefined :: "json \<Rightarrow> bool" where
  "arrayOrUndefined JUndefined = True"
| "arrayOrUndefined (JArr xs) = True"
| "arrayOrUndefined v = False"

definition accumulatorInv :: "obj \<Rightarrow> bool" where
  "accumulatorInv acc =
     (objGet acc ''level'' = JUndefined
      \<and> list_all (\<lambda>k. k \<notin> set compositions) (map fst acc)
      \<and> distinct (map fst acc)
      \<and> list_all (\<lambda>k. arrayOrUndefined (objGet acc k)) keywordsParameterKeys)"

text \<open>
  The single-key objects that \<open>constructOptions\<close> pushes for the keyword \<open>K\<close> of a
  store: none when one value is stored, which is hoisted instead.
\<close>

definition contribution :: "string \<Rightarrow> obj \<Rightarrow> json list" where
  "contribution K st =
     (if length (arrayElements (objGet st K)) = 1 then []
      else map (\<lambda>variant. JObj [(K, variant)]) (arrayElements (objGet st K)))"

section \<open>\<open>constructProperty\<close>\<close>

text \<open>\<open>constructOptions(optionsReducer(description))\<close>\<close>

definition parseOptions :: "env \<Rightarrow> string option \<Rightarrow> obj result" where
  "parseOptions env description =
     bind (optionsReducer env description) (\<lambda>store. constructOptions env store None)"

definition isOptionalType :: "tnode option \<Rightarrow> bool" where
  "isOptionalType t = (case t of Some (OptionalType e) \<Rightarrow> True | _ \<Rightarrow> False)"

text \<open>
  A tag of an annotation stream, as the external extractor delivers it, with its
  fields \<open>title\<close>, \<open>description\<close>, \<open>type\<close> and \<open>name\<close>.
\<close>

record tag =
  tagTitle :: string
  tagDescription :: "string option"
  tagType :: "tnode option"
  tagName :: "string option"

text \<open>The object \<open>{property: {[field]: schema}, required, in}\<close>.\<close>

record property =
  property :: obj
  required :: bool
  location :: string

definition constructProperty :: "env \<Rightarrow> tag \<Rightarrow> property result" where
  "constructProperty env param =
     (case tagName param of
        None \<Rightarrow> Inl (TypeError ''name is undefined'')
      | Some n \<Rightarrow>
          let parts = splitOn CHR ''.'' n;
              loc = hd parts;
              field = nth_opt parts 1
          in bind (parseOptions env (tagDescription param)) (\<lambda>options.
             if loc \<notin> set locations then Inl (InvalidLocation field (Some loc))
             else (case tagType param of
                     None \<Rightarrow> Inl (TypeError ''type is undefined'')
                   | Some t \<Rightarrow>
                       bind (constructPropertyType env t field options None) (\<lambda>schema.
                       Inr \<lparr>property = [(case field of None \<Rightarrow> ''undefined'' | Some f \<Rightarrow> f, schema)],
                            required = (\<not> isOptionalType (tagType param)),
                            location = loc\<rparr>))))"

section \<open>The document assembler\<close>

subsection \<open>\<open>fileFormat\<close>\<close>

text \<open>
  An annotation record \<open>{description, tags}\<close>, an operation object
  \<open>{tags, parameters, requestBody: {description, content}}\<close>, and an entry
  \<open>{name, description}\<close> of a tag list.
\<close>

record comment =
  commentDescription :: "string option"
  commentTags :: "tag list"

record operation =
  opTags :: "string list"
  opParameters :: "json list"
  requestBodyDescription :: string
  requestBodyContent :: obj

record tagEntry =
  entryName :: string
  entryDescription :: string

type_synonym pathItem = "(string \<times> operation) list"

type_synonym pathsObject = "(string \<times> pathItem) list"

text \<open>The object \<open>{paths, tags}\<close> that \<open>fileFormat\<close> returns (with the registry).\<close>

record fragment =
  paths :: pathsObject
  tags :: "tagEntry list"

definition parseRoute :: "string option \<Rightarrow> (string \<times> string) result" where
  "parseRoute str =
     (case str of
        None \<Rightarrow> Inl (TypeError ''str is null'')
      | Some s \<Rightarrow>
          let parts = splitOn CHR '' '' s;
              lowered = toLowerCase (hd parts)
          in Inr (if lowered = [] then ''get'' else lowered,
                  case nth_opt parts 1 of None \<Rightarrow> [] | Some u \<Rightarrow> u))"

definition parseDescription :: "comment \<Rightarrow> string" where
  "parseDescription obj =
     replaceFirst ''/**'' [] (case commentDescription obj of None \<Rightarrow> [] | Some d \<Rightarrow> d)"

definition parseTag :: "tag list \<Rightarrow> string list result" where
  "parseTag ts =
     (case find (\<lambda>t. tagTitle t = ''group'') ts of
        None \<Rightarrow> Inr [''default'', []]
      | Some g \<Rightarrow>
          (case tagDescription g of
             None \<Rightarrow> Inl (TypeError ''description is null'')
           | Some d \<Rightarrow> Inr (splitOn CHR ''-'' d)))"

text \<open>
  The variables of \<open>fileFormat\<close> that its loop changes: \<open>route\<close> (method and URI, once
  a \<open>route\<close> tag was seen), \<open>paths\<close> and \<open>tags\<close>.
\<close>

record assembly =
  route :: "(string \<times> string) option"
  fragmentOf :: fragment

text \<open>
  The body of the loop for one tag. On \<open>route\<close> the operation is seeded and entered
  under \<open>paths[uri][method]\<close>, keeping the other methods of that URI, and the tag is
  pushed. On \<open>param\<close> inside a route, \<open>constructProperty\<close> runs; the property it returns
  is printed and dropped. Every other title changes nothing.
\<close>

definition fileFormatStep :: "env \<Rightarrow> comment \<Rightarrow> assembly \<Rightarrow> tag \<Rightarrow> assembly result" where
  "fileFormatStep env comments st t =
     bind
       (if tagTitle t = ''route'' then
          bind (parseRoute (tagDescription t)) (\<lambda>(method, uri).
          bind (parseTag (commentTags comments)) (\<lambda>tg.
            let currentMethod =
                  \<lparr>opTags = [trim (hd tg)], opParameters = [],
                   requestBodyDescription = parseDescription comments,
                   requestBodyContent = []\<rparr>;
                old = (case map_of (paths (fragmentOf st)) uri of None \<Rightarrow> [] | Some item \<Rightarrow> item)
            in if uri = ''__proto__'' then Inl (Unmodelled uri)
               else Inr \<lparr>route = Some (method, uri),
                         fragmentOf =
                           \<lparr>paths = objSet uri (objSet method currentMethod old)
                                      (paths (fragmentOf st)),
                            tags = tags (fragmentOf st) @
                              [\<lparr>entryName = trim (hd tg),
                                entryDescription =
                                  (case nth_opt tg 1 of None \<Rightarrow> [] | Some d \<Rightarrow> trim d)\<rparr>]\<rparr>\<rparr>))
        else Inr st)
       (\<lambda>st'. if tagTitle t = ''param'' \<and> route st' \<noteq> None
              then bind (constructProperty env t) (\<lambda>p. Inr st')
              else Inr st')"

fun fileFormatLoop :: "env \<Rightarrow> comment \<Rightarrow> assembly \<Rightarrow> tag list \<Rightarrow> assembly result" where
  "fileFormatLoop env comments st [] = Inr st"
| "fileFormatLoop env comments st (t # ts) =
     bind (fileFormatStep env comments st t) (\<lambda>st'. fileFormatLoop env comments st' ts)"

definition fileFormat :: "env \<Rightarrow> comment \<Rightarrow> fragment result" where
  "fileFormat env comments =
     bind (fileFormatLoop env comments
             \<lparr>route = None, fragmentOf = \<lparr>paths = [], tags = []\<rparr>\<rparr> (commentTags comments))
       (\<lambda>st. Inr (fragmentOf st))"

text \<open>\<open>paths[uri][method].parameters\<close> and \<open>paths[uri][method].tags\<close> of a result.\<close>

definition operationAt :: "fragment result \<Rightarrow> string \<Rightarrow> string \<Rightarrow> operation option" where
  "operationAt r uri method =
     (case r of
        Inl e \<Rightarrow> None
      | Inr frag \<Rightarrow> (case map_of (paths frag) uri of None \<Rightarrow> None | Some item \<Rightarrow> map_of item method))"

definition parametersAt :: "fragment result \<Rightarrow> string \<Rightarrow> string \<Rightarrow> json list option" where
  "parametersAt r uri method = map_option opParameters (operationAt r uri method)"

definition tagsAt :: "fragment result \<Rightarrow> string \<Rightarrow> string \<Rightarrow> string list option" where
  "tagsAt r uri method = map_option opTags (operationAt r uri method)"

subsection \<open>\<open>generateSpecAndMount\<close>\<close>

text \<open>
  The document \<open>openapiObject\<close>, as far as the loop over the files touches or could
  touch it: \<open>paths\<close> and \<open>tags\<close>. The errors caught and printed are collected.
\<close>

record document =
  docPaths :: pathsObject
  docTags :: "tagEntry list"

record run =
  openapiObject :: document
  diagnostics :: "error list"

definition filterJsDocComments :: "comment list \<Rightarrow> comment list" where
  "filterJsDocComments jsDocComments = filter (\<lambda>item. length (commentTags item) > 0) jsDocComments"

text \<open>
  The body of the inner loop, \<open>try { ... } catch (e) { console.error(e) }\<close>, for one
  annotation stream. The library function \<open>deepmerge\<close> is the parameter \<open>merge\<close>.
\<close>

definition processComment ::
  "(pathsObject \<Rightarrow> pathsObject \<Rightarrow> pathsObject) \<Rightarrow> env \<Rightarrow> run \<Rightarrow> comment \<Rightarrow> run" where
  "processComment merge env r c =
     (case fileFormat env c of
        Inl e \<Rightarrow> r\<lparr>diagnostics := diagnostics r @ [e]\<rparr>
      | Inr frag \<Rightarrow>
          r\<lparr>openapiObject :=
              (openapiObject r)\<lparr>docPaths := merge (docPaths (openapiObject r)) (paths frag)\<rparr>\<rparr>)"

text \<open>
  The two loops of \<open>generateSpecAndMount\<close> over the parsed files, each a list of
  annotation records, starting from the base document. What comes before the loops
  (the checks of the arguments, the listing and parsing of the files, the building of
  the registry from the models) is not part of the model: the registry is in \<open>env\<close>.
\<close>

definition processFile ::
  "(pathsObject \<Rightarrow> pathsObject \<Rightarrow> pathsObject) \<Rightarrow> env \<Rightarrow> run \<Rightarrow> comment list \<Rightarrow> run" where
  "processFile merge env r parsedFile =
     foldl (processComment merge env) r (filterJsDocComments parsedFile)"

definition generateSpecAndMount ::
  "(pathsObject \<Rightarrow> pathsObject \<Rightarrow> pathsObject) \<Rightarrow> env \<Rightarrow> document \<Rightarrow> comment list list \<Rightarrow> run" where
  "generateSpecAndMount merge env base apiFiles =
     foldl (processFile merge env) \<lparr>openapiObject = base, diagnostics = []\<rparr> apiFiles"

subsection \<open>Merging path items\<close>

text \<open>
  Modelled from the spec: the keyed union that \<open>deepmerge\<close>, the deep-merge library
  called by \<open>generateSpecAndMount\<close>, makes of two objects; the library's code is not
  part of the sources. A key of the source that the target lacks is added with its
  value; for a key both have, the values are combined by \<open>f\<close> in the target's place.
\<close>

fun mergeWith ::
  "('v \<Rightarrow> 'v \<Rightarrow> 'v) \<Rightarrow> (string \<times> 'v) list \<Rightarrow> (string \<times> 'v) list \<Rightarrow> (string \<times> 'v) list" where
  "mergeWith f target [] = target"
| "mergeWith f target ((k, v) # source) =
     mergeWith f
       (case map_of target k of
          None \<Rightarrow> target @ [(k, v)]
        | Some old \<Rightarrow> objSet k (f old v) target)
       source"

text \<open>
  Modelled from the spec: \<open>deepmerge\<close> on \<open>openapiObject.paths\<close> and a fragment's
  \<open>paths\<close>. The spec has path-item fragments merge by deep union keyed by URI then
  method, where URI and method keys overwrite rather than duplicate: for a URI both
  have, each method of the fragment replaces the document's operation for that method
  or is added, and the document's other methods stay.
\<close>

definition deepmerge :: "pathsObject \<Rightarrow> pathsObject \<Rightarrow> pathsObject" where
  "deepmerge target source = mergeWith (mergeWith (\<lambda>old new. new)) target source"

text \<open>An object has one entry per key, at both levels of a \<open>paths\<close> object.\<close>

definition wellFormed :: "pathsObject \<Rightarrow> bool" where
  "wellFormed ps = (distinct (map fst ps) \<and> list_all (\<lambda>(uri, item). distinct (map fst item)) ps)"

subsection \<open>The tag list of the helper module\<close>

text \<open>
  \<open>_tagDuplicated\<close> and \<open>_attachTags\<close> of the helper module that
  \<open>addDataToSwaggerObject\<close> uses: a tag is pushed unless the target has a tag of its
  name. \<open>generateSpecAndMount\<close> does not call them.
\<close>

definition tagDuplicated :: "tagEntry list \<Rightarrow> tagEntry \<Rightarrow> bool" where
  "tagDuplicated target tg = (\<exists>targetTag \<in> set target. entryName targetTag = entryName tg)"

fun attachTags :: "tagEntry list \<Rightarrow> tagEntry list \<Rightarrow> tagEntry list" where
  "attachTags target [] = target"
| "attachTags target (tg # rest) =
     attachTags (if tagDuplicated target tg then target else target @ [tg]) rest"

subsection \<open>The annotation streams of the examples\<close>

definition routeTag :: "string \<Rightarrow> tag" where
  "routeTag d = \<lparr>tagTitle = ''route'', tagDescription = Some d, tagType = None, tagName = None\<rparr>"

definition groupTag :: "string \<Rightarrow> tag" where
  "groupTag d = \<lparr>tagTitle = ''group'', tagDescription = Some d, tagType = None, tagName = None\<rparr>"

definition paramTag :: "tnode \<Rightarrow> string \<Rightarrow> string \<Rightarrow> tag" where
  "paramTag t n d = \<lparr>tagTitle = ''param'', tagDescription = Some d, tagType = Some t, tagName = Some n\<rparr>"

text \<open>
  \<open>@route GET /users\<close>, \<open>@group foo - desc\<close>,
  \<open>@param {string} query.name.required - filter\<close>
\<close>

definition usersStream :: comment where
  "usersStream =
     \<lparr>commentDescription = Some [],
      commentTags = [routeTag ''GET /users'', groupTag ''foo - desc'',
                     paramTag (NameExpression ''string'') ''query.name.required'' ''filter'']\<rparr>"

text \<open>\<open>@route POST /orders\<close>, \<open>@param {Unknown.model} body.order - the order\<close>\<close>

definition unknownStream :: comment where
  "unknownStream =
     \<lparr>commentDescription = Some [],
      commentTags = [routeTag ''POST /orders'',
                     paramTag (NameExpression ''Unknown.model'') ''body.order'' ''the order'']\<rparr>"

text \<open>Two streams that put their routes in the group \<open>foo\<close>, described as A and as B.\<close>

definition fooA :: comment where
  "fooA = \<lparr>commentDescription = Some [],
           commentTags = [routeTag ''GET /a'', groupTag ''foo - A'']\<rparr>"

definition fooB :: comment where
  "fooB = \<lparr>commentDescription = Some [],
           commentTags = [routeTag ''GET /b'', groupTag ''foo - B'']\<rparr>"

text \<open>One stream with two routes in the group \<open>foo\<close>.\<close>

definition twoRoutes :: comment where
  "twoRoutes = \<lparr>commentDescription = Some [],
                commentTags = [routeTag ''GET /a'', routeTag ''POST /a'', groupTag ''foo - A'']\<rparr>"

text \<open>The description \<open>minimum: 5\<close>, new line, \<open>- minimum: 1\<close>.\<close>

definition minimumLines :: string where
  "minimumLines = ''minimum: 5'' @ [CHR 0x0A] @ ''- minimum: 1''"

text \<open>
  The description \<open>filter\<close>, \<open>- minimum: 5\<close>, \<open>- deprecated\<close>, \<open>- minimum: 1\<close>, one
  per line.
\<close>

definition mixedLines :: string where
  "mixedLines =
     ''filter'' @ [CHR 0x0A] @ ''- minimum: 5'' @ [CHR 0x0A] @ ''- deprecated'' @ [CHR 0x0A]
       @ ''- minimum: 1''"

definition emptyDocument :: document where
  "emptyDocument = \<lparr>docPaths = [], docTags = []\<rparr>"

text \<open>A document's \<open>paths\<close> and a fragment's, for the examples of merging.\<close>

definition fooOperation :: operation where
  "fooOperation =
     \<lparr>opTags = [''foo''], opParameters = [], requestBodyDescription = [],
      requestBodyContent = []\<rparr>"

definition barOperation :: operation where
  "barOperation =
     \<lparr>opTags = [''bar''], opParameters = [], requestBodyDescription = ''old'',
      requestBodyContent = []\<rparr>"

definition documentPaths :: pathsObject where
  "documentPaths = [(''/users'', [(''get'', barOperation), (''delete'', barOperation)])]"

definition fragmentPaths :: pathsObject where
  "fragmentPaths =
     [(''/users'', [(''get'', fooOperation), (''post'', fooOperation)]),
      (''/orders'', [(''get'', fooOperation)])]"

section \<open>Basic facts about objects\<close>

lemma objSet_same: "map_of xs k = Some v \<Longrightarrow> objSet k v xs = xs"
  by (induction xs) (auto split: if_splits)

lemma map_of_objSet: "map_of (objSet k v xs) k' = (if k' = k then Some v else map_of xs k')"
  by (induction xs) auto

lemma objGet_objSet: "objGet (objSet k v xs) k' = (if k' = k then v else objGet xs k')"
  by (simp add: objGet_def map_of_objSet)

lemma map_fst_objSet:
  "map fst (objSet k v xs) = (if k \<in> set (map fst xs) then map fst xs else map fst xs @ [k])"
  by (induction xs) (auto simp add: rev_image_eqI)

lemma keys_objSet: "set (map fst (objSet k v xs)) = insert k (set (map fst xs))"
  unfolding map_fst_objSet by auto

lemma distinct_objSet: "distinct (map fst xs) \<Longrightarrow> distinct (map fst (objSet k v xs))"
  unfolding map_fst_objSet by auto

lemma objGet_absent: "k \<notin> set (map fst xs) \<Longrightarrow> objGet xs k = JUndefined"
  by (simp add: objGet_def map_of_eq_None_iff [THEN iffD2])

section \<open>Properties of the type expression compiler\<close>

text \<open>
  C9. A name reference to one of the simple names \<open>string\<close>, \<open>number\<close>, \<open>integer\<close>,
  \<open>boolean\<close> without type arguments compiles to exactly the object \<open>{type: name}\<close>:
  both when the node is compiled on its own and when it is the base of a type
  application with an empty argument list.
\<close>

theorem primitive_name_exact:
  assumes "name \<in> set simpleNameExpressions"
  shows "constructPropertyType ctx (NameExpression name) field options None
           = Inr (JObj [(''type'', JStr name)])
       \<and> constructPropertyType ctx (TypeApplication (NameExpression name) []) field options applications
           = Inr (JObj [(''type'', JStr name)])"
  using assms by (simp add: constructNameExpression bind_def)

theorem primitive_name_exact_witness:
  "''integer'' \<in> set simpleNameExpressions
   \<and> constructPropertyType emptyEnv (NameExpression ''integer'') None [] None
           = Inr (JObj [(''type'', JStr ''integer'')])
   \<and> constructPropertyType emptyEnv (TypeApplication (NameExpression ''integer'') []) None [] None
           = Inr (JObj [(''type'', JStr ''integer'')])"
proof -
  have h: "''integer'' \<in> set simpleNameExpressions" by (simp add: simpleNameExpressions_def)
  show ?thesis using h primitive_name_exact [OF h, of emptyEnv None "[]" None] by simp
qed

text \<open>
  C8. A union whose elements are a null literal and exactly one other branch compiles
  to what the other branch compiles to, spread into a fresh object, with
  \<open>nullable: true\<close> set on it; when the other branch fails, the union fails with the
  same error.
\<close>

theorem union_null_single:
  assumes "NullLiteral \<in> set elements"
    and "filter (\<lambda>e. e \<noteq> NullLiteral) elements = [x]"
  shows "constructPropertyType ctx (UnionType elements) field options applications
         = bind (constructPropertyType ctx x field options None)
             (\<lambda>v. Inr (JObj (objSet ''nullable'' (JBool True) (spread v))))"
  using assms by (simp add: bind_def Let_def split: sum.splits)

theorem union_null_single_witness:
  "constructPropertyType emptyEnv (UnionType [NameExpression ''number'', NullLiteral]) None [] None
     = Inr (JObj [(''type'', JStr ''number''), (''nullable'', JBool True)])"
  using union_null_single [of "[NameExpression ''number'', NullLiteral]" "NameExpression ''number''"
      emptyEnv None "[]" None]
  by (simp add: constructNameExpression bind_def simpleNameExpressions_def)

text \<open>
  The shape of what a \<open>string\<close> base with type arguments compiles to: one argument
  gives \<open>{type: string, pattern: v}\<close> when \<open>isRegExp\<close> answers \<open>true\<close> for the compiled
  argument \<open>v\<close> and \<open>{type: string, format: v}\<close> otherwise; several arguments give
  \<open>{oneOf: [...]}\<close> of these objects, one per argument in order.
\<close>

lemma string_applications:
  "constructPropertyType ctx (TypeApplication (NameExpression ''string'') [a]) field options applications
     = bind (constructPropertyType ctx a field options None)
         (\<lambda>v. Inr (JObj [(''type'', JStr ''string''),
                          (if isRegExp ctx v then ''pattern'' else ''format'', v)]))
   \<and> (length as > 1 \<longrightarrow>
      constructPropertyType ctx (TypeApplication (NameExpression ''string'') as) field options applications
        = bind (sequence (map (\<lambda>a. constructPropertyType ctx a field options None) as))
            (\<lambda>vs. Inr (JObj [(''oneOf'',
                     JArr (map (\<lambda>v. JObj [(''type'', JStr ''string''),
                                (if isRegExp ctx v then ''pattern'' else ''format'', v)]) vs))])))"
  by (auto simp add: constructNameExpression bind_def simpleNameExpressions_def Let_def
        formatOrPattern_def split: sum.splits)

text \<open>
  C7 does not hold of \<open>isRegExp\<close>. The text \<open>^a+$\<close> is a valid regular expression (an
  anchored, non-empty run of \<open>a\<close>), and as the one type argument of \<open>string\<close> it
  compiles to \<open>{type: string, format: ^a+$}\<close>, not to a \<open>pattern\<close>, whatever the host:
  \<open>isRegExp\<close> pastes it unquoted into \<open>new RegExp(^a+$)\<close>, which no host can compile,
  and answers \<open>false\<close>.
\<close>

theorem caret_pattern_is_format:
  "isRegExp ctx (JStr ''^a+$'') = False
   \<and> constructPropertyType ctx
         (TypeApplication (NameExpression ''string'') [StringLiteralType ''^a+$''])
         field options applications
       = Inr (JObj [(''type'', JStr ''string''), (''format'', JStr ''^a+$'')])"
proof -
  have r: "isRegExp ctx (JStr ''^a+$'') = False"
    by (simp add: isRegExp_def decimalLiteral_def cannotStartExpression_def)
  show ?thesis
    using r string_applications [of ctx "StringLiteralType ''^a+$''" field options applications "[]"]
    by (simp add: bind_def)
qed

text \<open>
  A name that is neither simple nor a key of the dispatch table is a reference into the
  registry.
\<close>

lemma name_is_reference:
  assumes "name \<notin> set simpleNameExpressions" "name \<notin> set typeConstructorKeys" "\<not> inherited name"
  shows "constructPropertyType ctx (NameExpression name) field options applications
           = reference ctx field name"
  using assms by (simp add: constructNameExpression typeConstructorKeys_def Let_def)

text \<open>
  C5, as stated, fails: \<open>Date\<close> is a name reference that is not one of the simple
  names and not a key of the registry, and it compiles to \<open>{type: string}\<close>, neither
  failing nor producing a \<open>$ref\<close>. The dispatch table is consulted before the name is
  split.
\<close>

theorem date_is_not_a_reference:
  "''Date'' \<notin> set simpleNameExpressions \<and> map_of (schemas emptyEnv) ''Date'' = None
   \<and> constructPropertyType emptyEnv (NameExpression ''Date'') None [] None
       = Inr (JObj [(''type'', JStr ''string'')])"
  by (simp add: constructNameExpression simpleNameExpressions_def emptyEnv_def inherited_def
       inheritedKeys_def stringWithFormat_def objGet_def)

lemma inherited_has_no_dot: "inherited name \<Longrightarrow> segment name 0 = name"
  by (auto simp add: inherited_def inheritedKeys_def segment_def nth_opt_def)

lemma segment_head: "segment name 0 = hd (splitOn CHR ''.'' name)"
  by (cases name) (auto simp add: segment_def nth_opt_def hd_conv_nth split: list.splits)

text \<open>
  C5, amended. Take a name reference whose name is neither a simple name nor a key of
  the dispatch table (\<open>Array\<close>, \<open>Object\<close>, \<open>Enum\<close>, \<open>Date\<close>, \<open>File\<close> and the node
  kinds), and whose first dot-segment is not empty and not the name of a member that
  every object inherits (\<open>constructor\<close>, \<open>toString\<close>, ...). When the first segment is
  not a key of the registry, the compilation fails with \<open>UnknownModel\<close>. When it is a
  key and the second segment is absent or empty, the result is exactly
  \<open>{$ref: #/components/schemas/model}\<close>. When it is the key of a schema that has a
  \<open>properties\<close> object and the second segment is not empty and not the name of an
  inherited member, the compilation fails with \<open>UnknownModelProperty\<close> if the second
  segment is not a property there, and else the result is exactly
  \<open>{$ref: #/components/schemas/model/properties/field}\<close>. In both results \<open>$ref\<close> is the
  only key, and segments after the second are ignored.
\<close>

theorem name_reference:
  assumes "name \<notin> set simpleNameExpressions" and "name \<notin> set typeConstructorKeys"
    and "segment name 0 \<noteq> []" and "\<not> inherited (segment name 0)"
  shows "(map_of (schemas ctx) (segment name 0) = None \<longrightarrow>
            constructPropertyType ctx (NameExpression name) field options applications
              = Inl (UnknownModel field (segment name 0)))
       \<and> (map_of (schemas ctx) (segment name 0) \<noteq> None \<and> segment name 1 = [] \<longrightarrow>
            constructPropertyType ctx (NameExpression name) field options applications
              = Inr (JObj [(''$ref'', JStr (''#/components/schemas/'' @ segment name 0))]))
       \<and> (map_of (schemas ctx) (segment name 0) = Some (Some props)
            \<and> segment name 1 \<noteq> [] \<and> \<not> inherited (segment name 1) \<longrightarrow>
            constructPropertyType ctx (NameExpression name) field options applications
              = (if objGet props (segment name 1) = JUndefined
                 then Inl (UnknownModelProperty field (segment name 1) (segment name 0))
                 else Inr (JObj [(''$ref'', JStr (''#/components/schemas/'' @ segment name 0 @
                                   ''/properties/'' @ segment name 1))])))"
proof -
  have ni: "\<not> inherited name" using assms(4) inherited_has_no_dot [of name] by auto
  have r: "constructPropertyType ctx (NameExpression name) field options applications
             = reference ctx field name"
    by (rule name_is_reference [OF assms(1,2) ni])
  show ?thesis
    using assms(3,4) unfolding r reference_def segment_head [symmetric]
    by (auto simp add: Let_def segment_def nonEmpty_def hasMember_def objGet_def
          split: option.splits)
qed

theorem name_reference_witness:
  "constructPropertyType userEnv (NameExpression ''Unknown.model'') (Some ''x'') [] None
     = Inl (UnknownModel (Some ''x'') ''Unknown'')
   \<and> constructPropertyType userEnv (NameExpression ''User'') None [] None
     = Inr (JObj [(''$ref'', JStr ''#/components/schemas/User'')])
   \<and> constructPropertyType userEnv (NameExpression ''User.firstName.required'') None [] None
     = Inr (JObj [(''$ref'', JStr ''#/components/schemas/User/properties/firstName'')])
   \<and> constructPropertyType userEnv (NameExpression ''User.model'') (Some ''x'') [] None
     = Inl (UnknownModelProperty (Some ''x'') ''model'' ''User'')"
  using name_reference [where name = "''Unknown.model''" and ctx = userEnv and field = "Some ''x''"
           and options = "[]" and applications = None and props = "[]"]
        name_reference [where name = "''User''" and ctx = userEnv and field = None
           and options = "[]" and applications = None and props = "[]"]
        name_reference [where name = "''User.firstName.required''" and ctx = userEnv
           and field = None and options = "[]" and applications = None
           and props = "[(''firstName'', JObj [(''type'', JStr ''string'')]),
                         (''lastName'', JObj [(''type'', JStr ''string'')])]"]
        name_reference [where name = "''User.model''" and ctx = userEnv
           and field = "Some ''x''" and options = "[]" and applications = None
           and props = "[(''firstName'', JObj [(''type'', JStr ''string'')]),
                         (''lastName'', JObj [(''type'', JStr ''string'')])]"]
  by (simp add: segment_def nth_opt_def simpleNameExpressions_def typeConstructorKeys_def
        inherited_def inheritedKeys_def userEnv_def objGet_def)

section \<open>Properties of the option grammar\<close>

lemmas option_defs =
  optionsStep_def parseOption_def keyOf_def matchKey_def isAlnum_def nth_opt_def stripColon_def trim_def isSpace_def
  inherited_def inheritedKeys_def keywordsObjectKeys_def keywordsParameterKeys_def objGet_def
  keywordsParameter_def keywordsObject_def numberOf_def isInteger_def isDigit_def digitsValue_def
  prepend_def bind_def isLineTerminator_def Let_def compositions_def optionalString_def

text \<open>The two lines are two options; each puts its number in front of the list.\<close>

lemma minimum_split:
  "splitSeparator (replaceOptions minimumLines) = [''minimum: 5'', ''minimum: 1'']"
  by (simp add: minimumLines_def isSpace_def)

lemma minimum_first:
  "optionsStep env [(''level'', JUndefined)] ''minimum: 5''
     = Inr [(''level'', JUndefined), (''minimum'', JArr [JNum 5])]"
  by (simp add: option_defs)

lemma minimum_second:
  "optionsStep env [(''level'', JUndefined), (''minimum'', JArr [JNum 5])] ''minimum: 1''
     = Inr [(''level'', JUndefined), (''minimum'', JArr [JNum 1, JNum 5])]"
  by (simp add: option_defs)

lemma minimum_store:
  "optionsReducer env (Some minimumLines)
     = Inr [(''level'', JUndefined), (''minimum'', JArr [JNum 1, JNum 5])]"
  by (simp add: optionsReducer_def minimum_split minimum_first minimum_second bind_def)

text \<open>
  With no composition open, a list of several values of a scalar keyword becomes the
  \<open>anyOf\<close> array of single-key objects, in the order of the list.
\<close>

lemma promote:
  assumes "key \<in> set keywordsParameterKeys" and "length variants \<noteq> 1"
  shows "constructOptions env [(''level'', JUndefined), (key, JArr variants)] None
           = Inr [(''anyOf'', JArr (map (\<lambda>variant. JObj [(key, variant)]) variants))]"
proof -
  have "key \<noteq> ''level''" using assms(1) by (auto simp add: keywordsParameterKeys_def)
  then show ?thesis
    using assms
    by (simp add: constructOptions_def pushVariants_def levelKey_def nonEmpty_def objGet_def bind_def)
qed

text \<open>
  C4, as stated, fails: for the lines \<open>minimum: 5\<close> then \<open>minimum: 1\<close> the parsed
  options are not \<open>anyOf: [{minimum: 5}, {minimum: 1}]\<close>.
\<close>

theorem minimum_twice_not_in_order:
  "parseOptions emptyEnv (Some minimumLines)
     \<noteq> Inr [(''anyOf'', JArr [JObj [(''minimum'', JNum 5)], JObj [(''minimum'', JNum 1)]])]"
  using promote [of "''minimum''" "[JNum 1, JNum 5]" emptyEnv]
  by (simp add: parseOptions_def minimum_store bind_def keywordsParameterKeys_def)

subsection \<open>The steps of the reducer\<close>

lemma scalar_facts:
  assumes "K \<in> set keywordsParameterKeys"
  shows "\<not> inherited K" "K \<notin> set keywordsObjectKeys" "K \<noteq> ''level''" "K \<notin> set compositions"
    "K \<noteq> ''description''" "K \<noteq> ''anyOf''"
  using assms
  by (auto simp add: keywordsParameterKeys_def keywordsObjectKeys_def inherited_def
        inheritedKeys_def compositions_def)

lemma object_facts:
  assumes "k \<in> set keywordsObjectKeys"
  shows "\<not> inherited k" "k \<noteq> ''level''" "k \<notin> set keywordsParameterKeys"
  using assms
  by (auto simp add: keywordsParameterKeys_def keywordsObjectKeys_def inherited_def
        inheritedKeys_def)

lemma step_scalar:
  assumes "keyOf option \<in> set keywordsParameterKeys" and "objGet acc ''level'' = JUndefined"
  shows "optionsStep env acc option
           = bind (coerced env (keyOf option) option) (\<lambda>v.
             bind (prepend v (objGet acc (keyOf option))) (\<lambda>vs.
             Inr (objSet (keyOf option) vs acc)))"
  using scalar_facts(1,2) [OF assms(1)] assms
  by (simp add: optionsStep_def Let_def coerced_def)

lemma step_object:
  assumes "keyOf option \<in> set keywordsObjectKeys" and "keyOf option \<notin> set compositions"
  shows "optionsStep env acc option
           = Inr (objSet (keyOf option) (optionalString (snd (parseOption option))) acc)"
  using object_facts(1) [OF assms(1)] assms
  by (simp add: optionsStep_def Let_def)

lemma step_prose:
  assumes "\<not> inherited (keyOf option)" and "keyOf option \<notin> set keywordsObjectKeys"
    and "keyOf option \<notin> set keywordsParameterKeys"
  shows "optionsStep env acc option
           = Inr (objSet ''description'' (optionalString (fst (parseOption option))) acc)"
  using assms by (simp add: optionsStep_def Let_def)

lemma step_inherited:
  "inherited (keyOf option) \<Longrightarrow> optionsStep env acc option = Inl (Unmodelled (keyOf option))"
  by (simp add: optionsStep_def Let_def)

subsection \<open>The accumulator while no composition is open\<close>

lemma inv_objSet:
  assumes "accumulatorInv acc" and "k \<noteq> ''level''" and "k \<notin> set compositions"
    and "k \<in> set keywordsParameterKeys \<Longrightarrow> arrayOrUndefined x"
  shows "accumulatorInv (objSet k x acc)"
  using assms
  unfolding accumulatorInv_def list_all_iff keys_objSet
  by (auto simp add: objGet_objSet distinct_objSet)

lemma prepend_array:
  "arrayOrUndefined old \<Longrightarrow> prepend v old = Inr (JArr (v # arrayElements old))"
  by (cases old) (simp_all add: prepend_def arrayElements_def bind_def)

lemma inv_scalar:
  "accumulatorInv acc \<Longrightarrow> k \<in> set keywordsParameterKeys \<Longrightarrow> arrayOrUndefined (objGet acc k)"
  by (simp add: accumulatorInv_def list_all_iff)

lemma step_scalar_result:
  assumes "accumulatorInv acc" and "keyOf option \<in> set keywordsParameterKeys"
    and "optionsStep env acc option = Inr acc'"
  shows "\<exists>v. coerced env (keyOf option) option = Inr v
             \<and> acc' = objSet (keyOf option)
                     (JArr (v # arrayElements (objGet acc (keyOf option)))) acc"
proof -
  have lv: "objGet acc ''level'' = JUndefined" using assms(1) by (simp add: accumulatorInv_def)
  note st = step_scalar [OF assms(2) lv, of env]
  obtain v where v: "coerced env (keyOf option) option = Inr v"
    using assms(3) unfolding st by (cases "coerced env (keyOf option) option") (simp_all add: bind_def)
  have "acc' = objSet (keyOf option) (JArr (v # arrayElements (objGet acc (keyOf option)))) acc"
    using assms(3) unfolding st v
    by (simp add: bind_def prepend_array [OF inv_scalar [OF assms(1,2)]])
  with v show ?thesis by blast
qed

lemma step_inv:
  assumes inv: "accumulatorInv acc" and K: "K \<in> set keywordsParameterKeys"
    and nc: "keyOf option \<notin> set compositions"
    and st: "optionsStep env acc option = Inr acc'"
  shows "accumulatorInv acc'"
    and "arrayElements (objGet acc' K)
           = declaredValues env K [option] @ arrayElements (objGet acc K)"
    and "keyOf option = K \<Longrightarrow> \<exists>v. coerced env K option = Inr v"
proof -
  consider (inh) "inherited (keyOf option)"
    | (obj) "\<not> inherited (keyOf option)" "keyOf option \<in> set keywordsObjectKeys"
    | (sc) "keyOf option \<in> set keywordsParameterKeys"
    | (prose) "\<not> inherited (keyOf option)" "keyOf option \<notin> set keywordsObjectKeys"
        "keyOf option \<notin> set keywordsParameterKeys"
    by blast
  then have "accumulatorInv acc'
     \<and> arrayElements (objGet acc' K)
           = declaredValues env K [option] @ arrayElements (objGet acc K)
     \<and> (keyOf option = K \<longrightarrow> (\<exists>v. coerced env K option = Inr v))"
  proof cases
    case inh
    then show ?thesis using st by (simp add: step_inherited)
  next
    case obj
    have acc': "acc' = objSet (keyOf option) (optionalString (snd (parseOption option))) acc"
      using st unfolding step_object [OF obj(2) nc] by simp
    have ne: "keyOf option \<noteq> K" using object_facts(3) [OF obj(2)] K by auto
    have "accumulatorInv acc'"
      unfolding acc' using object_facts(2,3) [OF obj(2)] nc by (intro inv_objSet [OF inv]) auto
    then show ?thesis using ne
      by (simp add: acc' objGet_objSet declaredValues_def declarations_def)
  next
    case sc
    from step_scalar_result [OF inv sc st] obtain v
      where v: "coerced env (keyOf option) option = Inr v"
        and acc': "acc' = objSet (keyOf option)
                     (JArr (v # arrayElements (objGet acc (keyOf option)))) acc"
      by blast
    have "accumulatorInv acc'"
      unfolding acc' using scalar_facts(3,4) [OF sc] by (intro inv_objSet [OF inv]) auto
    then show ?thesis using v
      by (auto simp add: acc' objGet_objSet declaredValues_def declarations_def arrayElements_def)
  next
    case prose
    have acc': "acc' = objSet ''description'' (optionalString (fst (parseOption option))) acc"
      using st unfolding step_prose [OF prose] by simp
    have ne: "keyOf option \<noteq> K" using prose(3) K by auto
    have "accumulatorInv acc'"
      unfolding acc'
      by (intro inv_objSet [OF inv])
         (auto simp add: compositions_def keywordsParameterKeys_def)
    then show ?thesis using ne scalar_facts(5) [OF K]
      by (simp add: acc' objGet_objSet declaredValues_def declarations_def)
  qed
  then show "accumulatorInv acc'"
    and "arrayElements (objGet acc' K)
           = declaredValues env K [option] @ arrayElements (objGet acc K)"
    and "keyOf option = K \<Longrightarrow> \<exists>v. coerced env K option = Inr v"
    by blast+
qed

lemma declaredValues_Cons:
  "declaredValues env K (option # options)
     = declaredValues env K [option] @ declaredValues env K options"
  by (simp add: declaredValues_def declarations_def)

lemma declaredValues_single:
  "rev (declaredValues env K [option]) = declaredValues env K [option]"
  by (simp add: declaredValues_def declarations_def)

lemma loop_inv:
  assumes "accumulatorInv acc" and "K \<in> set keywordsParameterKeys"
    and "list_all (\<lambda>option. keyOf option \<notin> set compositions) options"
    and "optionsLoop env acc options = Inr acc'"
  shows "accumulatorInv acc'
       \<and> arrayElements (objGet acc' K)
           = rev (declaredValues env K options) @ arrayElements (objGet acc K)
       \<and> sequence (map (coerced env K) (declarations K options))
           = Inr (declaredValues env K options)"
  using assms
proof (induction options arbitrary: acc)
  case Nil
  then show ?case by (simp add: declaredValues_def declarations_def)
next
  case (Cons option options)
  obtain acc1 where s1: "optionsStep env acc option = Inr acc1"
    and l1: "optionsLoop env acc1 options = Inr acc'"
    using Cons.prems(4) by (cases "optionsStep env acc option") (simp_all add: bind_def)
  have nc: "keyOf option \<notin> set compositions"
    and ncs: "list_all (\<lambda>option. keyOf option \<notin> set compositions) options"
    using Cons.prems(3) by simp_all
  note step = step_inv [OF Cons.prems(1,2) nc s1]
  note ih = Cons.IH [OF step(1) Cons.prems(2) ncs l1]
  have seq: "sequence (map (coerced env K) (declarations K (option # options)))
               = Inr (declaredValues env K (option # options))"
  proof (cases "keyOf option = K")
    case True
    from step(3) [OF True] obtain v where v: "coerced env K option = Inr v" by blast
    show ?thesis using True v ih by (simp add: declaredValues_def declarations_def)
  next
    case False
    then show ?thesis using ih by (simp add: declaredValues_def declarations_def)
  qed
  show ?case
    using ih step(2) seq
    by (simp add: declaredValues_Cons [of env K option options] declaredValues_single)
qed

subsection \<open>What \<open>constructOptions\<close> pushes into \<open>anyOf\<close>\<close>

lemma push_result:
  assumes "arrayOrUndefined (objGet ls lk)"
  shows "pushVariants lk key variants ls
           = Inr (objSet lk (JArr (arrayElements (objGet ls lk)
                               @ map (\<lambda>variant. JObj [(key, variant)]) variants)) ls)"
  using assms
  by (cases "objGet ls lk") (simp_all add: pushVariants_def bind_def arrayElements_def)

lemma filter_variants:
  "filter (hasKey K) (map (\<lambda>variant. JObj [(key, variant)]) variants)
     = (if key = K then map (\<lambda>variant. JObj [(K, variant)]) variants else [])"
  by (induction variants) auto

lemma contribution_other:
  "key \<noteq> K \<Longrightarrow> contribution K ((key, v) # rest) = contribution K rest"
  by (simp add: contribution_def objGet_def)

lemma contribution_absent: "K \<notin> set (map fst rest) \<Longrightarrow> contribution K rest = []"
  by (simp add: contribution_def objGet_absent arrayElements_def)

lemma contribution_here:
  "K \<notin> set (map fst rest) \<Longrightarrow>
   contribution K ((K, JArr variants) # rest)
     = (if length variants = 1 then [] else map (\<lambda>variant. JObj [(K, variant)]) variants)"
  by (simp add: contribution_def objGet_def arrayElements_def)

lemma construct_variants:
  assumes "K \<in> set keywordsParameterKeys"
    and "list_all (\<lambda>k. k \<notin> set compositions) (map fst st)"
    and "distinct (map fst st)"
    and "arrayOrUndefined (objGet ls ''anyOf'')"
    and "constructOptionsLoop env None st ls = Inr r"
  shows "arrayOrUndefined (objGet r ''anyOf'')
       \<and> variantsOf K r = variantsOf K ls @ contribution K st"
  using assms
proof (induction st arbitrary: ls)
  case Nil
  then show ?case by (simp add: contribution_def objGet_def arrayElements_def)
next
  case (Cons kv rest)
  obtain key opt where kv: "kv = (key, opt)" by (cases kv)
  have nck: "key \<notin> set compositions"
    and ncr: "list_all (\<lambda>k. k \<notin> set compositions) (map fst rest)"
    and nin: "key \<notin> set (map fst rest)" and dr: "distinct (map fst rest)"
    using Cons.prems(2,3) kv by simp_all
  have nc3: "key \<notin> set [''allOf'', ''anyOf'', ''oneOf'']" and nnot: "key \<noteq> ''not''"
    and nany: "key \<noteq> ''anyOf''"
    using nck by (auto simp add: compositions_def)
  note run = Cons.prems(5) [unfolded kv constructOptionsLoop.simps]
  show ?case
  proof (cases "key = ''level''")
    case True
    then have r: "constructOptionsLoop env None rest ls = Inr r" using run by simp
    have "key \<noteq> K" using True scalar_facts(3) [OF Cons.prems(1)] by simp
    then show ?thesis
      using Cons.IH [OF Cons.prems(1) ncr dr Cons.prems(4) r]
      by (simp add: kv contribution_other)
  next
    case notLevel: False
    show ?thesis
    proof (cases "key \<in> set keywordsParameterKeys")
      case True
      show ?thesis
      proof (cases opt)
        case (JArr variants)
        show ?thesis
        proof (cases "length variants = 1")
          case False
          have r: "constructOptionsLoop env None rest
                     (objSet ''anyOf'' (JArr (arrayElements (objGet ls ''anyOf'')
                               @ map (\<lambda>variant. JObj [(key, variant)]) variants)) ls) = Inr r"
            using run notLevel True JArr False
            by (simp add: push_result [OF Cons.prems(4)] levelKey_def nonEmpty_def bind_def)
          have wf: "arrayOrUndefined (objGet (objSet ''anyOf'' (JArr (arrayElements (objGet ls ''anyOf'')
                               @ map (\<lambda>variant. JObj [(key, variant)]) variants)) ls) ''anyOf'')"
            by (simp add: objGet_objSet)
          note ih = Cons.IH [OF Cons.prems(1) ncr dr wf r]
          show ?thesis
          proof (cases "key = K")
            case True
            then show ?thesis
              using ih nin False JArr
              by (simp add: kv contribution_here contribution_absent variantsOf_def
                    objGet_objSet arrayElements_def filter_variants)
          next
            case False
            then show ?thesis
              using ih
              by (simp add: kv contribution_other variantsOf_def objGet_objSet
                    arrayElements_def filter_variants)
          qed
        next
          case one: True
          have r: "constructOptionsLoop env None rest (objSet key (hd variants) ls) = Inr r"
            using run notLevel True JArr one by (simp add: nonEmpty_def)
          have wf: "arrayOrUndefined (objGet (objSet key (hd variants) ls) ''anyOf'')"
            using Cons.prems(4) nany by (simp add: objGet_objSet)
          note ih = Cons.IH [OF Cons.prems(1) ncr dr wf r]
          show ?thesis
          proof (cases "key = K")
            case True
            then show ?thesis
              using ih nin one JArr nany
              by (simp add: kv contribution_here contribution_absent variantsOf_def objGet_objSet)
          next
            case False
            then show ?thesis
              using ih nany
              by (simp add: kv contribution_other variantsOf_def objGet_objSet)
          qed
        qed
      qed (use run notLevel True in simp_all)
    next
      case notScalar: False
      obtain v where v: "keywordsObject env key opt = Inr v"
        and r: "constructOptionsLoop env None rest (objSet key v ls) = Inr r"
        using run notLevel notScalar nc3 nnot
        by (cases "keywordsObject env key opt") (simp_all add: bind_def)
      have wf: "arrayOrUndefined (objGet (objSet key v ls) ''anyOf'')"
        using Cons.prems(4) nany by (simp add: objGet_objSet)
      note ih = Cons.IH [OF Cons.prems(1) ncr dr wf r]
      have "key \<noteq> K" using notScalar Cons.prems(1) by auto
      then show ?thesis
        using ih nany by (simp add: kv contribution_other variantsOf_def objGet_objSet)
    qed
  qed
qed

subsection \<open>A keyword declared more than once\<close>

lemma inv_initial: "accumulatorInv [(''level'', JUndefined)]"
  by (simp add: accumulatorInv_def objGet_def compositions_def keywordsParameterKeys_def)

lemma reducer_result:
  "optionsReducer env (Some d) = optionsLoop env [(''level'', JUndefined)] (optionsOf d)"
  by (simp add: optionsReducer_def optionsOf_def)

lemma repeated_general:
  assumes K: "K \<in> set keywordsParameterKeys"
    and nc: "list_all (\<lambda>option. keyOf option \<notin> set compositions) (optionsOf d)"
    and more: "length (declarations K (optionsOf d)) > 1"
    and parse: "parseOptions env (Some d) = Inr r"
  shows "sequence (map (coerced env K) (declarations K (optionsOf d)))
           = Inr (declaredValues env K (optionsOf d))
       \<and> variantsOf K r
           = map (\<lambda>v. JObj [(K, v)]) (rev (declaredValues env K (optionsOf d)))"
proof -
  obtain store where red: "optionsLoop env [(''level'', JUndefined)] (optionsOf d) = Inr store"
    and con: "constructOptionsLoop env None store [] = Inr r"
    using parse unfolding parseOptions_def reducer_result constructOptions_def
    by (cases "optionsLoop env [(''level'', JUndefined)] (optionsOf d)") (simp_all add: bind_def)
  note li = loop_inv [OF inv_initial K nc red]
  have inv: "accumulatorInv store" using li by simp
  have st: "arrayElements (objGet store K) = rev (declaredValues env K (optionsOf d))"
    using li scalar_facts(3) [OF K] by (simp add: objGet_def arrayElements_def)
  have len: "length (declaredValues env K (optionsOf d)) \<noteq> 1"
    using more by (simp add: declaredValues_def)
  have e: "variantsOf K [] = []" by (simp add: variantsOf_def objGet_def arrayElements_def)
  have "variantsOf K r = variantsOf K [] @ contribution K store"
    using construct_variants [OF K _ _ _ con] inv
    by (simp add: accumulatorInv_def objGet_def)
  then have "variantsOf K r = map (\<lambda>v. JObj [(K, v)]) (rev (declaredValues env K (optionsOf d)))"
    using len by (simp add: contribution_def st e)
  then show ?thesis using li by simp
qed

lemma pure_step:
  assumes K: "K \<in> set keywordsParameterKeys" and k: "keyOf option = K"
    and c: "coerced env K option = Inr v"
  shows "optionsStep env [(''level'', JUndefined)] option
           = Inr [(''level'', JUndefined), (K, JArr [v])]"
    and "optionsStep env [(''level'', JUndefined), (K, JArr xs)] option
           = Inr [(''level'', JUndefined), (K, JArr (v # xs))]"
proof -
  have ks: "keyOf option \<in> set keywordsParameterKeys" using K k by simp
  have ne: "K \<noteq> ''level''" "''level'' \<noteq> K" using scalar_facts(3) [OF K] by auto
  show "optionsStep env [(''level'', JUndefined)] option
           = Inr [(''level'', JUndefined), (K, JArr [v])]"
    using ne c unfolding step_scalar [OF ks, of "[(''level'', JUndefined)]" env, simplified objGet_def, simplified] k
    by (simp add: bind_def prepend_def objGet_def)
  show "optionsStep env [(''level'', JUndefined), (K, JArr xs)] option
           = Inr [(''level'', JUndefined), (K, JArr (v # xs))]"
    using ne c unfolding step_scalar [OF ks, of "[(''level'', JUndefined), (K, JArr xs)]" env, simplified objGet_def, simplified] k
    by (simp add: bind_def prepend_def objGet_def)
qed

lemma sequence_Cons:
  "sequence (map f (x # xs)) = Inr cs \<Longrightarrow>
   \<exists>v vs. f x = Inr v \<and> sequence (map f xs) = Inr vs \<and> cs = v # vs"
  by (cases "f x"; cases "sequence (map f xs)") auto

lemma pure_loop:
  assumes "K \<in> set keywordsParameterKeys" and "list_all (\<lambda>option. keyOf option = K) options"
    and "sequence (map (coerced env K) options) = Inr cs"
  shows "optionsLoop env [(''level'', JUndefined), (K, JArr xs)] options
           = Inr [(''level'', JUndefined), (K, JArr (rev cs @ xs))]"
  using assms
proof (induction options arbitrary: xs cs)
  case Nil
  then show ?case by simp
next
  case (Cons option options)
  from sequence_Cons [OF Cons.prems(3)] obtain v vs
    where v: "coerced env K option = Inr v"
      and vs: "sequence (map (coerced env K) options) = Inr vs" and cs: "cs = v # vs"
    by blast
  have k: "keyOf option = K" and ks: "list_all (\<lambda>option. keyOf option = K) options"
    using Cons.prems(2) by simp_all
  show ?case
    using Cons.IH [OF Cons.prems(1) ks vs, of "v # xs"] pure_step(2) [OF Cons.prems(1) k v, of xs]
    by (simp add: bind_def cs)
qed

lemma repeated_pure:
  assumes K: "K \<in> set keywordsParameterKeys"
    and all: "list_all (\<lambda>option. keyOf option = K) (optionsOf d)"
    and more: "length (optionsOf d) > 1"
    and seq: "sequence (map (coerced env K) (optionsOf d)) = Inr cs"
  shows "parseOptions env (Some d)
           = Inr [(''anyOf'', JArr (map (\<lambda>v. JObj [(K, v)]) (rev cs)))]"
proof -
  obtain option options where os: "optionsOf d = option # options"
    using more by (cases "optionsOf d") auto
  from sequence_Cons [OF seq [unfolded os]] obtain v vs
    where v: "coerced env K option = Inr v"
      and vs: "sequence (map (coerced env K) options) = Inr vs" and cs: "cs = v # vs"
    by blast
  have k: "keyOf option = K" and ks: "list_all (\<lambda>option. keyOf option = K) options"
    using all os by simp_all
  have red: "optionsReducer env (Some d) = Inr [(''level'', JUndefined), (K, JArr (rev cs))]"
    unfolding reducer_result os
    using pure_step(1) [OF K k v] pure_loop [OF K ks vs, of "[v]"]
    by (simp add: bind_def cs)
  have "length vs = length options"
    using vs
  proof (induction options arbitrary: vs)
    case Nil
    then show ?case by simp
  next
    case (Cons a options)
    from sequence_Cons [OF Cons.prems] Cons.IH show ?case by auto
  qed
  then have len: "length (rev cs) \<noteq> 1" using more os cs by simp
  show ?thesis
    unfolding parseOptions_def red
    using promote [OF K len, of env] by (simp add: bind_def)
qed

text \<open>
  C4, amended. Take a description none of whose lines is a composition keyword, so
  that no composition is open, and a scalar constraint keyword that it declares more
  than once. Whenever its options parse, every declaration's value coerces and the
  single-key objects \<open>{keyword: value}\<close> of the top-level \<open>anyOf\<close> array are one per
  declaration, in the reverse of the order of declaration. When the description
  consists of two or more declarations of the keyword and nothing else, and their
  values coerce, the parsed options are exactly that \<open>anyOf\<close> array: for the lines
  \<open>minimum: 5\<close> then \<open>minimum: 1\<close> they are \<open>anyOf: [{minimum: 1}, {minimum: 5}]\<close>.
\<close>

theorem repeated_keyword_reversed:
  "(K \<in> set keywordsParameterKeys
      \<and> list_all (\<lambda>option. keyOf option \<notin> set compositions) (optionsOf d)
      \<and> length (declarations K (optionsOf d)) > 1
      \<and> parseOptions env (Some d) = Inr r
    \<longrightarrow>
      sequence (map (coerced env K) (declarations K (optionsOf d)))
        = Inr (declaredValues env K (optionsOf d))
      \<and> variantsOf K r
        = map (\<lambda>v. JObj [(K, v)]) (rev (declaredValues env K (optionsOf d))))
   \<and> (K \<in> set keywordsParameterKeys
      \<and> list_all (\<lambda>option. keyOf option = K) (optionsOf d)
      \<and> length (optionsOf d) > 1
      \<and> sequence (map (coerced env K) (optionsOf d)) = Inr cs
    \<longrightarrow>
      parseOptions env (Some d) = Inr [(''anyOf'', JArr (map (\<lambda>v. JObj [(K, v)]) (rev cs)))])
   \<and> parseOptions env (Some minimumLines)
       = Inr [(''anyOf'', JArr [JObj [(''minimum'', JNum 1)], JObj [(''minimum'', JNum 5)]])]"
proof (intro conjI impI)
  assume h: "K \<in> set keywordsParameterKeys
      \<and> list_all (\<lambda>option. keyOf option \<notin> set compositions) (optionsOf d)
      \<and> length (declarations K (optionsOf d)) > 1
      \<and> parseOptions env (Some d) = Inr r"
  then have g: "sequence (map (coerced env K) (declarations K (optionsOf d)))
        = Inr (declaredValues env K (optionsOf d))
      \<and> variantsOf K r
        = map (\<lambda>v. JObj [(K, v)]) (rev (declaredValues env K (optionsOf d)))"
    by (intro repeated_general) simp_all
  from g show "sequence (map (coerced env K) (declarations K (optionsOf d)))
        = Inr (declaredValues env K (optionsOf d))" by simp
  from g show "variantsOf K r
        = map (\<lambda>v. JObj [(K, v)]) (rev (declaredValues env K (optionsOf d)))" by simp
next
  assume "K \<in> set keywordsParameterKeys
      \<and> list_all (\<lambda>option. keyOf option = K) (optionsOf d)
      \<and> length (optionsOf d) > 1
      \<and> sequence (map (coerced env K) (optionsOf d)) = Inr cs"
  then show "parseOptions env (Some d)
               = Inr [(''anyOf'', JArr (map (\<lambda>v. JObj [(K, v)]) (rev cs)))]"
    by (intro repeated_pure) simp_all
next
  show "parseOptions env (Some minimumLines)
       = Inr [(''anyOf'', JArr [JObj [(''minimum'', JNum 1)], JObj [(''minimum'', JNum 5)]])]"
    using promote [of "''minimum''" "[JNum 1, JNum 5]" env]
    by (simp add: parseOptions_def minimum_store bind_def keywordsParameterKeys_def)
qed

text \<open>The examples, evaluated.\<close>

lemma mixed_options:
  "optionsOf mixedLines = [''filter'', ''minimum: 5'', ''deprecated'', ''minimum: 1'']"
  by (simp add: optionsOf_def mixedLines_def isSpace_def)

lemma example_keys:
  "keyOf ''filter'' = ''filter''" "keyOf ''minimum: 5'' = ''minimum''"
  "keyOf ''deprecated'' = ''deprecated''" "keyOf ''minimum: 1'' = ''minimum''"
  by (simp_all add: keyOf_def parseOption_def matchKey_def isAlnum_def nth_opt_def stripColon_def
        isLineTerminator_def Let_def)

lemma example_values:
  "coerced env ''minimum'' ''minimum: 5'' = Inr (JNum 5)"
  "coerced env ''minimum'' ''minimum: 1'' = Inr (JNum 1)"
  by (simp_all add: coerced_def parseOption_def matchKey_def isAlnum_def nth_opt_def stripColon_def
        isLineTerminator_def Let_def keywordsParameter_def numberOf_def trim_def isSpace_def
        isInteger_def isDigit_def digitsValue_def)

lemma mixed_parsed:
  "parseOptions env (Some mixedLines)
     = Inr [(''description'', JStr ''filter''),
            (''anyOf'', JArr [JObj [(''minimum'', JNum 1)], JObj [(''minimum'', JNum 5)]]),
            (''deprecated'', JBool True)]"
  by (simp add: parseOptions_def reducer_result mixed_options constructOptions_def option_defs
        pushVariants_def levelKey_def nonEmpty_def)

theorem repeated_keyword_reversed_witness:
  "parseOptions emptyEnv (Some mixedLines)
     = Inr [(''description'', JStr ''filter''),
            (''anyOf'', JArr [JObj [(''minimum'', JNum 1)], JObj [(''minimum'', JNum 5)]]),
            (''deprecated'', JBool True)]
   \<and> declaredValues emptyEnv ''minimum'' (optionsOf mixedLines) = [JNum 5, JNum 1]
   \<and> variantsOf ''minimum''
         [(''description'', JStr ''filter''),
          (''anyOf'', JArr [JObj [(''minimum'', JNum 1)], JObj [(''minimum'', JNum 5)]]),
          (''deprecated'', JBool True)]
       = [JObj [(''minimum'', JNum 1)], JObj [(''minimum'', JNum 5)]]
   \<and> parseOptions emptyEnv (Some minimumLines)
       = Inr [(''anyOf'', JArr [JObj [(''minimum'', JNum 1)], JObj [(''minimum'', JNum 5)]])]"
proof -
  have k: "''minimum'' \<in> set keywordsParameterKeys" by (simp add: keywordsParameterKeys_def)
  have dv: "declaredValues emptyEnv ''minimum'' (optionsOf mixedLines) = [JNum 5, JNum 1]"
    by (simp add: declaredValues_def declarations_def mixed_options example_keys example_values)
  have nc: "list_all (\<lambda>option. keyOf option \<notin> set compositions) (optionsOf mixedLines)"
    by (simp add: mixed_options example_keys compositions_def)
  have more: "length (declarations ''minimum'' (optionsOf mixedLines)) > 1"
    by (simp add: declarations_def mixed_options example_keys)
  have po: "optionsOf minimumLines = [''minimum: 5'', ''minimum: 1'']"
    by (simp add: optionsOf_def minimum_split)
  have pure: "list_all (\<lambda>option. keyOf option = ''minimum'') (optionsOf minimumLines)"
    by (simp add: po example_keys)
  have seq: "sequence (map (coerced emptyEnv ''minimum'') (optionsOf minimumLines))
               = Inr [JNum 5, JNum 1]"
    by (simp add: po example_values)
  show ?thesis
    using k dv nc more pure seq mixed_parsed [of emptyEnv]
      repeated_keyword_reversed [where K = "''minimum''" and d = mixedLines and env = emptyEnv
        and cs = "[]"
        and r = "[(''description'', JStr ''filter''),
            (''anyOf'', JArr [JObj [(''minimum'', JNum 1)], JObj [(''minimum'', JNum 5)]]),
            (''deprecated'', JBool True)]"]
      repeated_keyword_reversed [where K = "''minimum''" and d = minimumLines and env = emptyEnv
        and cs = "[JNum 5, JNum 1]" and r = "[]"]
    by (simp add: po)
qed

section \<open>Properties of \<open>constructProperty\<close>\<close>

text \<open>A description that is prose only gives the one option \<open>description\<close>.\<close>

lemma prose_options:
  "parseOptions env (Some ''filter'') = Inr [(''description'', JStr ''filter'')]"
  "parseOptions env (Some ''the order'') = Inr [(''description'', JStr ''the order'')]"
  by (simp_all add: parseOptions_def optionsReducer_def constructOptions_def option_defs)

lemma users_property:
  "constructProperty env (paramTag (NameExpression ''string'') ''query.name.required'' ''filter'')
     = Inr \<lparr>property = [(''name'', JObj [(''type'', JStr ''string'')])], required = True,
            location = ''query''\<rparr>"
  by (simp add: constructProperty_def paramTag_def prose_options bind_def nth_opt_def locations_def
        constructNameExpression simpleNameExpressions_def isOptionalType_def)

lemma hd_take2: "xs \<noteq> [] \<Longrightarrow> hd (take 2 xs) = hd xs"
  by (cases xs) simp_all

lemma nth_opt_take2: "nth_opt (take 2 xs) 1 = nth_opt xs 1"
  by (simp add: nth_opt_def)

lemma splitOn_nonempty: "splitOn c s \<noteq> []"
  by (induction s) (auto split: list.splits)

lemma same_segments:
  assumes "take 2 (splitOn c n) = take 2 (splitOn c n')"
  shows "hd (splitOn c n) = hd (splitOn c n')"
    and "nth_opt (splitOn c n) 1 = nth_opt (splitOn c n') 1"
proof -
  show "hd (splitOn c n) = hd (splitOn c n')"
    using assms hd_take2 [OF splitOn_nonempty, of c n] hd_take2 [OF splitOn_nonempty, of c n']
    by simp
  show "nth_opt (splitOn c n) 1 = nth_opt (splitOn c n') 1"
    using assms nth_opt_take2 [of "splitOn c n"] nth_opt_take2 [of "splitOn c n'"] by simp
qed

lemma optional_property:
  "constructProperty env
     (paramTag (OptionalType (NameExpression ''string'')) ''query.name.required'' ''filter'')
     = Inr \<lparr>property = [(''name'', JObj [(''type'', JStr ''string'')])], required = False,
            location = ''query''\<rparr>"
  by (simp add: constructProperty_def paramTag_def prose_options bind_def nth_opt_def locations_def
        constructNameExpression simpleNameExpressions_def isOptionalType_def)

text \<open>
  C10. For a \<open>param\<close> tag whose name starts with one of the four locations, whose
  description parses to options and whose type node compiles to a schema,
  \<open>constructProperty\<close> returns the descriptor whose \<open>property\<close> has the one key that is
  the second dot-segment of the name, with that schema, and whose \<open>required\<close> flag is
  false when the type node is an \<open>OptionalType\<close> and true for every other kind.
  Whenever \<open>constructProperty\<close> returns, the flag is true exactly when the node is not
  an \<open>OptionalType\<close>. Two names with the same first two dot-segments give the same
  result, so further segments, such as a trailing \<open>.required\<close>, have no effect.
\<close>

theorem required_flag:
  "(tagName param = Some n \<and> hd (splitOn CHR ''.'' n) \<in> set locations
      \<and> parseOptions env (tagDescription param) = Inr options
      \<and> tagType param = Some t
      \<and> constructPropertyType env t (nth_opt (splitOn CHR ''.'' n) 1) options None = Inr schema
    \<longrightarrow>
      constructProperty env param
        = Inr \<lparr>property = [(case nth_opt (splitOn CHR ''.'' n) 1 of
                                None \<Rightarrow> ''undefined'' | Some f \<Rightarrow> f, schema)],
                required = (case t of OptionalType e \<Rightarrow> False | _ \<Rightarrow> True),
                location = hd (splitOn CHR ''.'' n)\<rparr>)
   \<and> (constructProperty env param = Inr p \<longrightarrow>
      required p = (\<not> isOptionalType (tagType param))
      \<and> map fst (property p) = [case nth_opt (splitOn CHR ''.'' (the (tagName param))) 1 of
                                  None \<Rightarrow> ''undefined'' | Some f \<Rightarrow> f])
   \<and> (take 2 (splitOn CHR ''.'' n1) = take 2 (splitOn CHR ''.'' n2) \<longrightarrow>
        constructProperty env (param\<lparr>tagName := Some n1\<rparr>)
          = constructProperty env (param\<lparr>tagName := Some n2\<rparr>))"
proof (intro conjI impI)
  assume "tagName param = Some n \<and> hd (splitOn CHR ''.'' n) \<in> set locations
      \<and> parseOptions env (tagDescription param) = Inr options
      \<and> tagType param = Some t
      \<and> constructPropertyType env t (nth_opt (splitOn CHR ''.'' n) 1) options None = Inr schema"
  then show "constructProperty env param
        = Inr \<lparr>property = [(case nth_opt (splitOn CHR ''.'' n) 1 of
                                None \<Rightarrow> ''undefined'' | Some f \<Rightarrow> f, schema)],
                required = (case t of OptionalType e \<Rightarrow> False | _ \<Rightarrow> True),
                location = hd (splitOn CHR ''.'' n)\<rparr>"
    by (cases t) (simp_all add: constructProperty_def bind_def Let_def isOptionalType_def)
next
  assume h: "constructProperty env param = Inr p"
  then show "required p = (\<not> isOptionalType (tagType param))"
    by (auto simp add: constructProperty_def bind_def Let_def
          split: option.splits sum.splits if_splits)
  from h show "map fst (property p) = [case nth_opt (splitOn CHR ''.'' (the (tagName param))) 1 of
                                  None \<Rightarrow> ''undefined'' | Some f \<Rightarrow> f]"
    by (auto simp add: constructProperty_def bind_def Let_def
          split: option.splits sum.splits if_splits)
next
  assume "take 2 (splitOn CHR ''.'' n1) = take 2 (splitOn CHR ''.'' n2)"
  note eq = same_segments [OF this, unfolded One_nat_def]
  show "constructProperty env (param\<lparr>tagName := Some n1\<rparr>)
          = constructProperty env (param\<lparr>tagName := Some n2\<rparr>)"
    by (simp add: constructProperty_def Let_def eq cong: if_cong option.case_cong)
qed

theorem required_flag_witness:
  "constructProperty emptyEnv
     (paramTag (OptionalType (NameExpression ''string'')) ''query.name.required'' ''filter'')
     = Inr \<lparr>property = [(''name'', JObj [(''type'', JStr ''string'')])], required = False,
            location = ''query''\<rparr>
   \<and> constructProperty emptyEnv
     (paramTag (NameExpression ''string'') ''query.name.required'' ''filter'')
     = Inr \<lparr>property = [(''name'', JObj [(''type'', JStr ''string'')])], required = True,
            location = ''query''\<rparr>
   \<and> constructProperty emptyEnv (paramTag (NameExpression ''string'') ''query.name'' ''filter'')
     = constructProperty emptyEnv
         (paramTag (NameExpression ''string'') ''query.name.required'' ''filter'')"
proof -
  have c1: "constructPropertyType emptyEnv (OptionalType (NameExpression ''string''))
              (nth_opt (splitOn CHR ''.'' ''query.name.required'') 1)
              [(''description'', JStr ''filter'')] None
            = Inr (JObj [(''type'', JStr ''string'')])"
    by (simp add: constructNameExpression simpleNameExpressions_def bind_def)
  have c2: "constructPropertyType emptyEnv (NameExpression ''string'')
              (nth_opt (splitOn CHR ''.'' ''query.name.required'') 1)
              [(''description'', JStr ''filter'')] None
            = Inr (JObj [(''type'', JStr ''string'')])"
    by (simp add: constructNameExpression simpleNameExpressions_def)
  show ?thesis
    using c1 c2 prose_options(1) [of emptyEnv]
      required_flag [where env = emptyEnv and n = "''query.name.required''"
        and param = "paramTag (OptionalType (NameExpression ''string'')) ''query.name.required'' ''filter''"
        and options = "[(''description'', JStr ''filter'')]"
        and t = "OptionalType (NameExpression ''string'')"
        and schema = "JObj [(''type'', JStr ''string'')]"
        and p = "\<lparr>property = [(''name'', JObj [(''type'', JStr ''string'')])], required = False,
            location = ''query''\<rparr>"
        and ?n1.0 = "''query.name''" and ?n2.0 = "''query.name.required''"]
      required_flag [where env = emptyEnv and n = "''query.name.required''"
        and param = "paramTag (NameExpression ''string'') ''query.name.required'' ''filter''"
        and options = "[(''description'', JStr ''filter'')]"
        and t = "NameExpression ''string''"
        and schema = "JObj [(''type'', JStr ''string'')]"
        and p = "\<lparr>property = [(''name'', JObj [(''type'', JStr ''string'')])], required = True,
            location = ''query''\<rparr>"
        and ?n1.0 = "''query.name''" and ?n2.0 = "''query.name.required''"]
    by (simp add: paramTag_def nth_opt_def locations_def isOptionalType_def)
qed

section \<open>Properties of merging\<close>

lemma map_of_mergeWith_other:
  "k \<notin> fst ` set source \<Longrightarrow> map_of (mergeWith f target source) k = map_of target k"
proof (induction source arbitrary: target)
  case Nil
  then show ?case by simp
next
  case (Cons kv source)
  obtain k' v where kv: "kv = (k', v)" by (cases kv)
  from Cons.prems kv have ne: "k \<noteq> k'" and rest: "k \<notin> fst ` set source" by auto
  show ?case
    using Cons.IH [OF rest] ne kv
    by (auto simp add: map_of_objSet map_add_def split: option.splits)
qed

lemma mergeWith_idem:
  assumes "distinct (map fst source)"
    and "\<And>k v. (k, v) \<in> set source \<Longrightarrow> f v v = v"
    and "\<And>k v a. (k, v) \<in> set source \<Longrightarrow> f (f a v) v = f a v"
  shows "mergeWith f (mergeWith f target source) source = mergeWith f target source"
  using assms
proof (induction source arbitrary: target)
  case Nil
  then show ?case by simp
next
  case (Cons kv source)
  obtain k v where kv: "kv = (k, v)" by (cases kv)
  define t1 where "t1 = (case map_of target k of None \<Rightarrow> target @ [(k, v)]
                          | Some old \<Rightarrow> objSet k (f old v) target)"
  from Cons.prems(1) kv have notin: "k \<notin> fst ` set source" and dist: "distinct (map fst source)"
    by auto
  have fvv: "f v v = v" using Cons.prems(2) [of k v] kv by simp
  have ffv: "\<And>a. f (f a v) v = f a v" using Cons.prems(3) [of k v] kv by simp
  have look1: "\<exists>w. map_of t1 k = Some w \<and> f w v = w"
  proof (cases "map_of target k")
    case None
    then show ?thesis using fvv by (simp add: t1_def map_add_def)
  next
    case (Some old)
    then show ?thesis using ffv by (simp add: t1_def map_of_objSet)
  qed
  then obtain w where w: "map_of t1 k = Some w" "f w v = w" by blast
  have look2: "map_of (mergeWith f t1 source) k = Some w"
    using map_of_mergeWith_other [OF notin] w(1) by simp
  have step: "(case map_of (mergeWith f t1 source) k of
                 None \<Rightarrow> mergeWith f t1 source @ [(k, v)]
               | Some old \<Rightarrow> objSet k (f old v) (mergeWith f t1 source)) = mergeWith f t1 source"
    using look2 w(2) by (simp add: objSet_same)
  have ih: "mergeWith f (mergeWith f t1 source) source = mergeWith f t1 source"
    using Cons.IH [OF dist] Cons.prems(2,3) by (metis list.set_intros(2))
  show ?case
    unfolding kv mergeWith.simps t1_def [symmetric] step ih ..
qed

lemma mergeWith_self:
  assumes "distinct (map fst target)" and "set source \<subseteq> set target"
  shows "mergeWith (\<lambda>old new. new) target source = target"
  using assms
proof (induction source)
  case Nil
  then show ?case by simp
next
  case (Cons kv source)
  obtain k v where kv: "kv = (k, v)" by (cases kv)
  have "map_of target k = Some v" using Cons.prems kv by simp
  then show ?case using Cons kv by (simp add: objSet_same)
qed

text \<open>
  C3. Merging a path-item fragment into a document's \<open>paths\<close> twice gives what merging
  it once gives, for every document and every fragment that is an object (one entry per
  URI, and per method within a URI): the second merge overwrites each URI and method
  with what is already there.
\<close>

theorem deepmerge_idempotent:
  assumes "wellFormed F"
  shows "deepmerge (deepmerge D F) F = deepmerge D F"
  unfolding deepmerge_def
proof (rule mergeWith_idem)
  show "distinct (map fst F)" using assms by (simp add: wellFormed_def)
next
  fix k v assume "(k, v) \<in> set F"
  then have d: "distinct (map fst v)" using assms by (auto simp add: wellFormed_def list_all_iff)
  show "mergeWith (\<lambda>old new. new) v v = v" using d by (simp add: mergeWith_self)
  fix a
  show "mergeWith (\<lambda>old new. new) (mergeWith (\<lambda>old new. new) a v) v = mergeWith (\<lambda>old new. new) a v"
    by (rule mergeWith_idem) (use d in auto)
qed

theorem deepmerge_idempotent_witness:
  "wellFormed fragmentPaths
   \<and> deepmerge (deepmerge documentPaths fragmentPaths) fragmentPaths
       = [(''/users'', [(''get'', fooOperation), (''delete'', barOperation), (''post'', fooOperation)]),
          (''/orders'', [(''get'', fooOperation)])]"
proof -
  have wf: "wellFormed fragmentPaths" by (simp add: wellFormed_def fragmentPaths_def)
  have once: "deepmerge documentPaths fragmentPaths
       = [(''/users'', [(''get'', fooOperation), (''delete'', barOperation), (''post'', fooOperation)]),
          (''/orders'', [(''get'', fooOperation)])]"
    by (simp add: deepmerge_def documentPaths_def fragmentPaths_def)
  show ?thesis using wf once deepmerge_idempotent [OF wf, of documentPaths] by simp
qed

section \<open>Properties of the document assembler\<close>

lemmas stream_defs =
  fileFormat_def fileFormatStep_def parseRoute_def parseTag_def parseDescription_def
  routeTag_def groupTag_def paramTag_def bind_def Let_def nth_opt_def trim_def isSpace_def
  toLowerCase_def lowerChar_def upperLetters_def lowerLetters_def

text \<open>The stream of the scenario, evaluated.\<close>

lemma users_fragment:
  "fileFormat env usersStream
     = Inr \<lparr>paths = [(''/users'', [(''get'',
               \<lparr>opTags = [''foo''], opParameters = [], requestBodyDescription = [],
                requestBodyContent = []\<rparr>)])],
            tags = [\<lparr>entryName = ''foo'', entryDescription = ''desc''\<rparr>]\<rparr>"
  using users_property [of env]
  by (simp add: usersStream_def stream_defs)

text \<open>
  C1 does not hold of \<open>fileFormat\<close>. For the stream \<open>@route GET /users\<close>,
  \<open>@group foo - desc\<close>, \<open>@param {string} query.name.required - filter\<close> the tags of
  \<open>paths["/users"]["get"]\<close> are \<open>["foo"]\<close> and \<open>constructProperty\<close> compiles the
  \<open>param\<close> tag to \<open>{property: {name: {type: "string"}}, required: true, in: "query"}\<close>,
  but the operation carries no parameter: its \<open>parameters\<close> is still the empty list it
  was seeded with, since the compiled descriptor is printed and dropped.
\<close>

theorem users_stream:
  "tagsAt (fileFormat env usersStream) ''/users'' ''get'' = Some [''foo'']
   \<and> parametersAt (fileFormat env usersStream) ''/users'' ''get'' = Some []
   \<and> constructProperty env (paramTag (NameExpression ''string'') ''query.name.required'' ''filter'')
       = Inr \<lparr>property = [(''name'', JObj [(''type'', JStr ''string'')])], required = True,
              location = ''query''\<rparr>"
  by (simp add: users_fragment users_property parametersAt_def tagsAt_def operationAt_def)

text \<open>A \<open>param\<close> of type \<open>Unknown.model\<close> inside a route, with no model \<open>Unknown\<close>.\<close>

lemma unknown_property:
  assumes "map_of (schemas env) ''Unknown'' = None"
  shows "constructProperty env (paramTag (NameExpression ''Unknown.model'') ''body.order'' ''the order'')
           = Inl (UnknownModel (Some ''order'') ''Unknown'')"
  using assms
  by (simp add: constructProperty_def paramTag_def prose_options bind_def nth_opt_def locations_def
        constructNameExpression simpleNameExpressions_def reference_def inherited_def
        inheritedKeys_def)

lemma unknown_fails:
  assumes "map_of (schemas env) ''Unknown'' = None"
  shows "fileFormat env unknownStream = Inl (UnknownModel (Some ''order'') ''Unknown'')"
  using unknown_property [OF assms]
  by (simp add: unknownStream_def stream_defs)

lemma two_routes_fragment:
  "fileFormat env twoRoutes
     = Inr \<lparr>paths = [(''/a'', [(''get'', fooOperation), (''post'', fooOperation)])],
            tags = [\<lparr>entryName = ''foo'', entryDescription = ''A''\<rparr>,
                    \<lparr>entryName = ''foo'', entryDescription = ''A''\<rparr>]\<rparr>"
  by (simp add: twoRoutes_def stream_defs fooOperation_def)

text \<open>
  What a stream does to the document depends on the document only, not on the errors
  collected before.
\<close>

lemma processComment_document:
  "openapiObject r = openapiObject r' \<Longrightarrow>
   openapiObject (processComment merge env r c) = openapiObject (processComment merge env r' c)"
  by (simp add: processComment_def split: sum.splits)

lemma comments_document:
  "openapiObject r = openapiObject r' \<Longrightarrow>
   openapiObject (foldl (processComment merge env) r cs)
     = openapiObject (foldl (processComment merge env) r' cs)"
proof (induction cs arbitrary: r r')
  case Nil
  then show ?case by simp
next
  case (Cons c cs)
  show ?case
    using Cons.IH [OF processComment_document [OF Cons.prems]] by simp
qed

lemma processFile_document:
  "openapiObject r = openapiObject r' \<Longrightarrow>
   openapiObject (processFile merge env r f) = openapiObject (processFile merge env r' f)"
  unfolding processFile_def by (rule comments_document)

lemma files_document:
  "openapiObject r = openapiObject r' \<Longrightarrow>
   openapiObject (foldl (processFile merge env) r fs)
     = openapiObject (foldl (processFile merge env) r' fs)"
proof (induction fs arbitrary: r r')
  case Nil
  then show ?case by simp
next
  case (Cons f fs)
  show ?case
    using Cons.IH [OF processFile_document [OF Cons.prems]] by simp
qed

lemma failed_comment:
  "fileFormat env c = Inl e \<Longrightarrow>
   processComment merge env r c = r\<lparr>diagnostics := diagnostics r @ [e]\<rparr>"
  by (simp add: processComment_def)

lemma failed_in_file:
  assumes "fileFormat env c = Inl e"
  shows "openapiObject (processFile merge env r (pre @ c # post))
           = openapiObject (processFile merge env r (pre @ post))"
proof (cases "length (commentTags c) > 0")
  case True
  have "openapiObject (processComment merge env (foldl (processComment merge env) r (filterJsDocComments pre)) c)
          = openapiObject (foldl (processComment merge env) r (filterJsDocComments pre))"
    by (simp add: failed_comment [OF assms])
  from comments_document [OF this]
  show ?thesis using True by (simp add: processFile_def filterJsDocComments_def)
next
  case False
  then show ?thesis by (simp add: processFile_def filterJsDocComments_def)
qed

text \<open>
  C6. A stream on which \<open>fileFormat\<close> fails (with an error of the model) leaves the
  document as it was, its error is recorded, and the run over all files ends with the
  document it would have without that stream: the streams before and after it are
  processed as usual. A stream with a
  route and a \<open>param\<close> of type \<open>Unknown.model\<close> fails with \<open>UnknownModel\<close> when the
  registry has no model \<open>Unknown\<close>.
\<close>

theorem stream_error_isolated:
  "(fileFormat env c = Inl e \<and> \<not> unmodelled e \<longrightarrow>
      openapiObject (processComment merge env r c) = openapiObject r
      \<and> diagnostics (processComment merge env r c) = diagnostics r @ [e]
      \<and> openapiObject (generateSpecAndMount merge env base (before @ (pre @ c # post) # after))
          = openapiObject (generateSpecAndMount merge env base (before @ (pre @ post) # after)))
   \<and> (map_of (schemas env) ''Unknown'' = None \<longrightarrow>
        fileFormat env unknownStream = Inl (UnknownModel (Some ''order'') ''Unknown''))"
proof (intro conjI impI)
  assume "fileFormat env c = Inl e \<and> \<not> unmodelled e"
  then have f: "fileFormat env c = Inl e" by simp
  show "openapiObject (processComment merge env r c) = openapiObject r"
    by (simp add: failed_comment [OF f])
  show "diagnostics (processComment merge env r c) = diagnostics r @ [e]"
    by (simp add: failed_comment [OF f])
  show "openapiObject (generateSpecAndMount merge env base (before @ (pre @ c # post) # after))
          = openapiObject (generateSpecAndMount merge env base (before @ (pre @ post) # after))"
    unfolding generateSpecAndMount_def
    using files_document [OF failed_in_file [OF f]] by simp
next
  assume "map_of (schemas env) ''Unknown'' = None"
  then show "fileFormat env unknownStream = Inl (UnknownModel (Some ''order'') ''Unknown'')"
    by (rule unknown_fails)
qed

lemma foo_fragments:
  "fileFormat env fooA = Inr \<lparr>paths = [(''/a'', [(''get'', fooOperation)])],
                               tags = [\<lparr>entryName = ''foo'', entryDescription = ''A''\<rparr>]\<rparr>"
  "fileFormat env fooB = Inr \<lparr>paths = [(''/b'', [(''get'', fooOperation)])],
                               tags = [\<lparr>entryName = ''foo'', entryDescription = ''B''\<rparr>]\<rparr>"
  by (simp_all add: fooA_def fooB_def stream_defs fooOperation_def)

lemma foo_nonempty: "commentTags fooA \<noteq> []" "commentTags fooB \<noteq> []"
  by (simp_all add: fooA_def fooB_def)

lemma foo_run:
  "openapiObject (generateSpecAndMount deepmerge env emptyDocument [[fooA, fooB]])
     = \<lparr>docPaths = [(''/a'', [(''get'', fooOperation)]), (''/b'', [(''get'', fooOperation)])],
        docTags = []\<rparr>"
  by (simp add: generateSpecAndMount_def processFile_def filterJsDocComments_def foo_nonempty
        processComment_def foo_fragments emptyDocument_def deepmerge_def)

theorem stream_error_isolated_witness:
  "fileFormat emptyEnv unknownStream = Inl (UnknownModel (Some ''order'') ''Unknown'')
   \<and> openapiObject (generateSpecAndMount deepmerge emptyEnv emptyDocument [[fooA, unknownStream, fooB]])
     = \<lparr>docPaths = [(''/a'', [(''get'', fooOperation)]), (''/b'', [(''get'', fooOperation)])],
        docTags = []\<rparr>"
proof -
  have u: "map_of (schemas emptyEnv) ''Unknown'' = None" by (simp add: emptyEnv_def)
  have f: "fileFormat emptyEnv unknownStream = Inl (UnknownModel (Some ''order'') ''Unknown'')"
    using u stream_error_isolated [of emptyEnv] by blast
  show ?thesis
    using f foo_run [of emptyEnv]
      stream_error_isolated [of emptyEnv unknownStream "UnknownModel (Some ''order'') ''Unknown''"
        deepmerge "\<lparr>openapiObject = emptyDocument, diagnostics = []\<rparr>" emptyDocument "[]"
        "[fooA]" "[fooB]" "[]"]
    by simp
qed

text \<open>The loops of \<open>generateSpecAndMount\<close> never change the document's \<open>tags\<close>.\<close>

lemma processComment_tags:
  "docTags (openapiObject (processComment merge env r c)) = docTags (openapiObject r)"
  by (simp add: processComment_def split: sum.splits)

lemma comments_tags:
  "docTags (openapiObject (foldl (processComment merge env) r cs)) = docTags (openapiObject r)"
  by (induction cs arbitrary: r) (simp_all add: processComment_tags)

lemma files_tags:
  "docTags (openapiObject (foldl (processFile merge env) r fs)) = docTags (openapiObject r)"
  by (induction fs arbitrary: r) (simp_all add: processFile_def comments_tags)

lemma tags_never_registered:
  "docTags (openapiObject (generateSpecAndMount merge env base apiFiles)) = docTags base"
  by (simp add: generateSpecAndMount_def files_tags)

text \<open>
  C2 does not hold of \<open>fileFormat\<close> and \<open>generateSpecAndMount\<close>. A stream with two
  routes in the group \<open>foo\<close> returns two entries named \<open>foo\<close>; and after a run over the
  streams that describe \<open>foo\<close> as A and as B the document, which started without tags,
  has no entry named \<open>foo\<close> at all, since the \<open>tags\<close> that \<open>fileFormat\<close> returns are
  dropped.
\<close>

theorem tags_not_deduplicated:
  "fileFormat env twoRoutes
     = Inr \<lparr>paths = [(''/a'', [(''get'', fooOperation), (''post'', fooOperation)])],
            tags = [\<lparr>entryName = ''foo'', entryDescription = ''A''\<rparr>,
                    \<lparr>entryName = ''foo'', entryDescription = ''A''\<rparr>]\<rparr>
   \<and> docTags (openapiObject (generateSpecAndMount merge env emptyDocument [[fooA, fooB]])) = []"
  by (simp add: two_routes_fragment tags_never_registered emptyDocument_def)

text \<open>
  \<open>_attachTags\<close> of the helper module does what C2 says: names stay distinct, and the
  entry that came first stays.
\<close>

lemma attachTags_distinct:
  "distinct (map entryName target) \<Longrightarrow> distinct (map entryName (attachTags target ts))"
proof (induction ts arbitrary: target)
  case Nil
  then show ?case by simp
next
  case (Cons tg ts)
  show ?case
  proof (cases "tagDuplicated target tg")
    case True
    then show ?thesis using Cons.IH [OF Cons.prems] by simp
  next
    case False
    then have "distinct (map entryName (target @ [tg]))"
      using Cons.prems by (auto simp add: tagDuplicated_def)
    from Cons.IH [OF this] show ?thesis using False by simp
  qed
qed

lemma attachTags_first_wins:
  "attachTags [] [\<lparr>entryName = ''foo'', entryDescription = ''A''\<rparr>,
                  \<lparr>entryName = ''foo'', entryDescription = ''B''\<rparr>]
     = [\<lparr>entryName = ''foo'', entryDescription = ''A''\<rparr>]"
  by (simp add: tagDuplicated_def)

end
